theory Spec2Isabelle
  imports Main "HOL-Library.Word" "HOL-Library.Signed_Division"
begin

unbundle bit_operations_syntax

section \<open>ServoEasing: the motion engine of ServoEasing.hpp\<close>

text \<open>
  The embedding follows \<^verbatim>\<open>src/src/ServoEasing.hpp\<close> in its default build: none of
  \<^verbatim>\<open>USE_PCA9685_SERVO_EXPANDER\<close>, \<^verbatim>\<open>USE_LEIGHTWEIGHT_SERVO_LIB\<close>,
  \<^verbatim>\<open>PROVIDE_ONLY_LINEAR_MOVEMENT\<close>, \<^verbatim>\<open>DISABLE_MICROS_AS_DEGREE_PARAMETER\<close>,
  \<^verbatim>\<open>PRINT_FOR_SERIAL_PLOTTER\<close>, \<^verbatim>\<open>TRACE\<close> or \<^verbatim>\<open>DEBUG\<close> is defined, so positions are
  microseconds and a pulse is written with \<^verbatim>\<open>Servo::writeMicroseconds\<close>.

  C \<^verbatim>\<open>int\<close>, \<^verbatim>\<open>long\<close> and \<^verbatim>\<open>int32_t\<close> values are \<^typ>\<open>int\<close>: signed overflow is
  undefined in C, and it is not modelled, nor is the narrowing of a \<^verbatim>\<open>long\<close> that does
  not fit an \<^verbatim>\<open>int\<close>. Division is C's, truncating towards zero
  (\<open>sdiv\<close>), and a division by zero is the error value \<open>None\<close>. The unsigned types
  wrap: \<^verbatim>\<open>uint32_t\<close> is \<^typ>\<open>32 word\<close>, and a value stored into a \<^verbatim>\<open>uint_fast16_t\<close> is
  reduced with \<open>take_bit\<close> to the width that type has on the target.
\<close>

subsection \<open>Constants of ServoEasing.h and of the target\<close>

text \<open>
  The header \<^verbatim>\<open>ServoEasing.h\<close> is not part of the sources at hand, so the macros the
  functions below use are parameters. \<open>UINT_FAST16_BITS\<close> is the width of
  \<^verbatim>\<open>uint_fast16_t\<close> on the target (16 on AVR, 32 on the ARM and ESP cores).
\<close>

record config =
  INVALID_SERVO :: nat
  THRESHOLD_VALUE_FOR_INTERPRETING_VALUE_AS_MICROSECONDS :: int
  MILLIS_IN_ONE_SECOND :: int
  CALL_STYLE_MASK :: nat
  CALL_STYLE_BOUNCING_OUT_IN :: nat
  EASE_LINEAR :: nat
  EASE_DUMMY_MOVE :: nat
  UINT_FAST16_BITS :: nat

subsection \<open>The object and the static data\<close>

text \<open>
  One \<^verbatim>\<open>ServoEasing\<close> object. \<open>TargetPositionReachedHandler\<close> is a function pointer:
  \<open>None\<close> is \<^verbatim>\<open>NULL\<close>, \<open>Some h\<close> the address \<open>h\<close> of user code.
\<close>

record servo =
  mServoIndex :: nat
  mServo0DegreeMicrosecondsOrUnits :: int
  mServo180DegreeMicrosecondsOrUnits :: int
  mTrimMicrosecondsOrUnits :: int
  mOperateServoReverse :: bool
  mCurrentMicrosecondsOrUnits :: int
  mStartMicrosecondsOrUnits :: int
  mEndMicrosecondsOrUnits :: int
  mDeltaMicrosecondsOrUnits :: int
  mMillisAtStartMove :: "32 word"
  mMillisForCompleteMove :: nat
  mSpeed :: nat
  mEasingType :: nat
  mServoMoves :: bool
  TargetPositionReachedHandler :: "nat option"

text \<open>
  What the engine does to the outside: a pulse width handed to
  \<^verbatim>\<open>Servo::writeMicroseconds\<close> of the object at an address, and a call of the handler
  at an address with the object's address as its argument.
\<close>

datatype event = Pulse nat int | Reached nat nat

text \<open>
  The store. Objects live at addresses (\<open>heap\<close>); \<open>ServoEasingArray\<close> holds pointers
  to them, so two slots may hold the same object. \<open>millis\<close> is the value the Arduino
  function \<^verbatim>\<open>millis()\<close> returns at the moment of the call.
\<close>

record state =
  heap :: "nat \<Rightarrow> servo"
  ServoEasingArray :: "nat option list"
  sServoArrayMaxIndex :: nat
  ServoEasingNextPositionArray :: "int list"
  sInterruptsAreActive :: bool
  millis :: "32 word"
  trace :: "event list"

definition this_update :: "nat \<Rightarrow> (servo \<Rightarrow> servo) \<Rightarrow> state \<Rightarrow> state" where
  "this_update p f s = s\<lparr>heap := (heap s)(p := f (heap s p))\<rparr>"


subsection \<open>Unit conversion\<close>

text \<open>The Arduino core's \<^verbatim>\<open>map\<close>, in \<^verbatim>\<open>long\<close> arithmetic.\<close>

definition map_long :: "int \<Rightarrow> int \<Rightarrow> int \<Rightarrow> int \<Rightarrow> int \<Rightarrow> int" where
  "map_long x in_min in_max out_min out_max =
     ((x - in_min) * (out_max - out_min)) sdiv (in_max - in_min) + out_min"

definition MicrosecondsOrUnitsToDegree :: "servo \<Rightarrow> int \<Rightarrow> int option" where
  "MicrosecondsOrUnitsToDegree sv aMicrosecondsOrUnits =
     (let tResult = aMicrosecondsOrUnits - mServo0DegreeMicrosecondsOrUnits sv;
          tResult = (tResult * 180) + 928;
          tRange = mServo180DegreeMicrosecondsOrUnits sv - mServo0DegreeMicrosecondsOrUnits sv
      in if tRange = 0 then None else Some (tResult sdiv tRange))"

definition MicrosecondsToDegree :: "servo \<Rightarrow> int \<Rightarrow> int option" where
  "MicrosecondsToDegree sv aMicroseconds = MicrosecondsOrUnitsToDegree sv aMicroseconds"

definition DegreeToMicrosecondsOrUnits :: "config \<Rightarrow> servo \<Rightarrow> int \<Rightarrow> int" where
  "DegreeToMicrosecondsOrUnits cfg sv aDegreeOrMicroseconds =
     (if aDegreeOrMicroseconds < THRESHOLD_VALUE_FOR_INTERPRETING_VALUE_AS_MICROSECONDS cfg
      then map_long aDegreeOrMicroseconds 0 180
             (mServo0DegreeMicrosecondsOrUnits sv) (mServo180DegreeMicrosecondsOrUnits sv)
      else aDegreeOrMicroseconds)"

definition DegreeToMicrosecondsOrUnitsWithTrimAndReverse :: "servo \<Rightarrow> int \<Rightarrow> int" where
  "DegreeToMicrosecondsOrUnitsWithTrimAndReverse sv aDegree =
     (let tResultValue = map_long aDegree 0 180
            (mServo0DegreeMicrosecondsOrUnits sv) (mServo180DegreeMicrosecondsOrUnits sv);
          tResultValue = tResultValue + mTrimMicrosecondsOrUnits sv
      in if mOperateServoReverse sv
         then mServo180DegreeMicrosecondsOrUnits sv
                - (tResultValue - mServo0DegreeMicrosecondsOrUnits sv)
         else tResultValue)"

subsection \<open>Writing a position\<close>

definition writeMicrosecondsOrUnits :: "config \<Rightarrow> nat \<Rightarrow> int \<Rightarrow> state \<Rightarrow> state" where
  "writeMicrosecondsOrUnits cfg p aMicrosecondsOrUnits s =
     (if mServoIndex (heap s p) = INVALID_SERVO cfg then s
      else
        let s1 = this_update p (\<lambda>sv. sv\<lparr>mCurrentMicrosecondsOrUnits := aMicrosecondsOrUnits\<rparr>) s;
            sv = heap s1 p;
            tValue = aMicrosecondsOrUnits + mTrimMicrosecondsOrUnits sv;
            tValue = (if mOperateServoReverse sv
                      then mServo180DegreeMicrosecondsOrUnits sv
                             - (tValue - mServo0DegreeMicrosecondsOrUnits sv)
                      else tValue)
        in s1\<lparr>trace := trace s1 @ [Pulse p tValue]\<rparr>)"

definition "write" :: "config \<Rightarrow> nat \<Rightarrow> int \<Rightarrow> state \<Rightarrow> state" where
  "write cfg p aDegreeOrMicrosecond s =
     (if mServoIndex (heap s p) = INVALID_SERVO cfg then s
      else
        let s1 = s\<lparr>ServoEasingNextPositionArray :=
                     (ServoEasingNextPositionArray s)
                       [mServoIndex (heap s p) := aDegreeOrMicrosecond]\<rparr>
        in writeMicrosecondsOrUnits cfg p
             (DegreeToMicrosecondsOrUnits cfg (heap s1 p) aDegreeOrMicrosecond) s1)"

subsection \<open>The periodic trigger\<close>

text \<open>
  Of \<^verbatim>\<open>enableServoEasingInterrupt\<close> and \<^verbatim>\<open>disableServoEasingInterrupt\<close> the timer
  registers are outside the model; what remains is the flag they set.
\<close>

definition enableServoEasingInterrupt :: "state \<Rightarrow> state" where
  "enableServoEasingInterrupt s = s\<lparr>sInterruptsAreActive := True\<rparr>"

definition disableServoEasingInterrupt :: "state \<Rightarrow> state" where
  "disableServoEasingInterrupt s = s\<lparr>sInterruptsAreActive := False\<rparr>"

subsection \<open>Starting and stopping a move\<close>

text \<open>
  An argument of type \<^verbatim>\<open>uint_fast16_t\<close> arrives reduced to the width of that type; the
  functions below take the number the caller writes and reduce it first.
\<close>

definition uint_fast16 :: "config \<Rightarrow> nat \<Rightarrow> nat" where
  "uint_fast16 cfg n = take_bit (UINT_FAST16_BITS cfg) n"

definition setSpeed :: "config \<Rightarrow> nat \<Rightarrow> nat \<Rightarrow> state \<Rightarrow> state" where
  "setSpeed cfg p aDegreesPerSecond s =
     this_update p (\<lambda>sv. sv\<lparr>mSpeed := uint_fast16 cfg aDegreesPerSecond\<rparr>) s"

definition setTargetPositionReachedHandler :: "nat \<Rightarrow> nat option \<Rightarrow> state \<Rightarrow> state" where
  "setTargetPositionReachedHandler p aTargetPositionReachedHandler s =
     this_update p (\<lambda>sv. sv\<lparr>TargetPositionReachedHandler := aTargetPositionReachedHandler\<rparr>) s"

definition startEaseToD :: "config \<Rightarrow> nat \<Rightarrow> int \<Rightarrow> nat \<Rightarrow> bool \<Rightarrow> state \<Rightarrow> bool \<times> state" where
  "startEaseToD cfg p aDegreeOrMicrosecond aMillisForMove aStartUpdateByInterrupt s =
     (if mServoIndex (heap s p) = INVALID_SERVO cfg then (True, s)
      else
        let s1 = (if mEasingType (heap s p) \<noteq> EASE_DUMMY_MOVE cfg
                  then this_update p
                         (\<lambda>sv. sv\<lparr>mEndMicrosecondsOrUnits :=
                                   DegreeToMicrosecondsOrUnits cfg sv aDegreeOrMicrosecond\<rparr>)
                         (s\<lparr>ServoEasingNextPositionArray :=
                              (ServoEasingNextPositionArray s)
                                [mServoIndex (heap s p) := aDegreeOrMicrosecond]\<rparr>)
                  else s);
            tCurrentMicrosecondsOrUnits = mCurrentMicrosecondsOrUnits (heap s1 p);
            s2 = this_update p
                   (\<lambda>sv. sv\<lparr>mDeltaMicrosecondsOrUnits :=
                               mEndMicrosecondsOrUnits sv - tCurrentMicrosecondsOrUnits,
                             mMillisForCompleteMove := uint_fast16 cfg aMillisForMove,
                             mStartMicrosecondsOrUnits := tCurrentMicrosecondsOrUnits\<rparr>) s1;
            s3 = (if mEasingType (heap s2 p) AND CALL_STYLE_MASK cfg = CALL_STYLE_BOUNCING_OUT_IN cfg
                  then this_update p
                         (\<lambda>sv. sv\<lparr>mEndMicrosecondsOrUnits := tCurrentMicrosecondsOrUnits\<rparr>) s2
                  else s2);
            s4 = this_update p (\<lambda>sv. sv\<lparr>mMillisAtStartMove := millis s3\<rparr>) s3;
            tReturnValue = (\<not> mServoMoves (heap s4 p));
            s5 = this_update p (\<lambda>sv. sv\<lparr>mServoMoves := True\<rparr>) s4;
            s6 = (if aStartUpdateByInterrupt \<and> \<not> sInterruptsAreActive s5
                  then enableServoEasingInterrupt s5 else s5)
        in (tReturnValue, s6))"

text \<open>
  \<^verbatim>\<open>startEaseTo\<close> divides by the calibration range when it converts to degrees; with
  equal calibration values that is a division by zero, the result \<open>None\<close>.
\<close>

definition startEaseTo ::
  "config \<Rightarrow> nat \<Rightarrow> int \<Rightarrow> nat \<Rightarrow> bool \<Rightarrow> state \<Rightarrow> (bool \<times> state) option" where
  "startEaseTo cfg p aDegreeOrMicrosecond aDegreesPerSecond aStartUpdateByInterrupt s =
     (let tDegreesPerSecond = uint_fast16 cfg aDegreesPerSecond;
          tDegreesPerSecond = (if tDegreesPerSecond = 0 then 1 else tDegreesPerSecond);
          sv = heap s p
      in case (if aDegreeOrMicrosecond \<ge> THRESHOLD_VALUE_FOR_INTERPRETING_VALUE_AS_MICROSECONDS cfg
               then MicrosecondsToDegree sv aDegreeOrMicrosecond
               else Some aDegreeOrMicrosecond) of
           None \<Rightarrow> None
         | Some tTargetDegree \<Rightarrow>
          (case MicrosecondsOrUnitsToDegree sv (mCurrentMicrosecondsOrUnits sv) of
             None \<Rightarrow> None
           | Some tCurrentDegree \<Rightarrow>
              let tMillisForCompleteMove =
                    nat (take_bit (UINT_FAST16_BITS cfg)
                      ((\<bar>tTargetDegree - tCurrentDegree\<bar> * MILLIS_IN_ONE_SECOND cfg)
                         sdiv int tDegreesPerSecond));
                  tMillisForCompleteMove =
                    (if mEasingType sv AND CALL_STYLE_MASK cfg = CALL_STYLE_BOUNCING_OUT_IN cfg
                     then take_bit (UINT_FAST16_BITS cfg) (tMillisForCompleteMove * 2)
                     else tMillisForCompleteMove)
              in Some (startEaseToD cfg p aDegreeOrMicrosecond tMillisForCompleteMove
                         aStartUpdateByInterrupt s)))"


definition slot_indices :: "state \<Rightarrow> nat list" where
  "slot_indices s = [0..<Suc (sServoArrayMaxIndex s)]"

definition isOneServoMoving :: "state \<Rightarrow> bool" where
  "isOneServoMoving s =
     list_ex (\<lambda>tServoIndex.
                case ServoEasingArray s ! tServoIndex of
                  None \<Rightarrow> False
                | Some q \<Rightarrow> mServoMoves (heap s q))
       (slot_indices s)"

definition stop :: "nat \<Rightarrow> state \<Rightarrow> state" where
  "stop p s =
     (let s1 = this_update p (\<lambda>sv. sv\<lparr>mServoMoves := False\<rparr>) s
      in if \<not> isOneServoMoving s1 then disableServoEasingInterrupt s1 else s1)"

definition continueWithoutInterrupts :: "nat \<Rightarrow> state \<Rightarrow> state" where
  "continueWithoutInterrupts p s = this_update p (\<lambda>sv. sv\<lparr>mServoMoves := True\<rparr>) s"

subsection \<open>The tick\<close>

text \<open>
  User code is a parameter: \<open>hs h p\<close> is what the handler at address \<open>h\<close> does to
  the store when it is called with the object at \<open>p\<close>. The floating point of the
  non-linear easings is a parameter as well: \<open>ef sv t\<close> is the position they compute
  for the object \<open>sv\<close> after \<open>t\<close> milliseconds.
\<close>

definition callTargetPositionReachedHandler ::
  "(nat \<Rightarrow> nat \<Rightarrow> state \<Rightarrow> state) \<Rightarrow> nat \<Rightarrow> state \<Rightarrow> state" where
  "callTargetPositionReachedHandler hs p s =
     (case TargetPositionReachedHandler (heap s p) of
        None \<Rightarrow> s
      | Some h \<Rightarrow> hs h p (s\<lparr>trace := trace s @ [Reached h p]\<rparr>))"

definition update ::
  "config \<Rightarrow> (nat \<Rightarrow> nat \<Rightarrow> state \<Rightarrow> state) \<Rightarrow> (servo \<Rightarrow> 32 word \<Rightarrow> int) \<Rightarrow> nat \<Rightarrow> state
     \<Rightarrow> bool \<times> state" where
  "update cfg hs ef p s =
     (if \<not> mServoMoves (heap s p) then (True, s)
      else
        let tMillisSinceStart = millis s - mMillisAtStartMove (heap s p)
        in if unat tMillisSinceStart \<ge> mMillisForCompleteMove (heap s p)
           then
             let s1 = writeMicrosecondsOrUnits cfg p (mEndMicrosecondsOrUnits (heap s p)) s;
                 s2 = this_update p (\<lambda>sv. sv\<lparr>mServoMoves := False\<rparr>) s1;
                 s3 = callTargetPositionReachedHandler hs p s2
             in (\<not> mServoMoves (heap s3 p), s3)
           else
             let sv = heap s p;
                 tNewMicrosecondsOrUnits =
                   (if mEasingType sv = EASE_LINEAR cfg
                    then mStartMicrosecondsOrUnits sv
                           + ((mDeltaMicrosecondsOrUnits sv * sint tMillisSinceStart)
                                sdiv signed_take_bit 31 (int (mMillisForCompleteMove sv)))
                    else ef sv tMillisSinceStart)
             in (False,
                 if tNewMicrosecondsOrUnits \<noteq> mCurrentMicrosecondsOrUnits sv
                 then writeMicrosecondsOrUnits cfg p tNewMicrosecondsOrUnits s
                 else s))"

text \<open>
  Ticks of one object: before each call of \<^verbatim>\<open>update\<close> the clock has moved on to the
  next time of the list.
\<close>

fun ticks ::
  "config \<Rightarrow> (nat \<Rightarrow> nat \<Rightarrow> state \<Rightarrow> state) \<Rightarrow> (servo \<Rightarrow> 32 word \<Rightarrow> int) \<Rightarrow> nat
     \<Rightarrow> 32 word list \<Rightarrow> state \<Rightarrow> state" where
  "ticks cfg hs ef p [] s = s"
| "ticks cfg hs ef p (t # ts) s = ticks cfg hs ef p ts (snd (update cfg hs ef p (s\<lparr>millis := t\<rparr>)))"

definition reached_calls :: "nat \<Rightarrow> state \<Rightarrow> nat" where
  "reached_calls p s = length (filter (\<lambda>e. case e of Reached h q \<Rightarrow> q = p | _ \<Rightarrow> False) (trace s))"

subsection \<open>Functions on the list of all servos\<close>


text \<open>
  In \<^verbatim>\<open>stopAllServos\<close> the line \<^verbatim>\<open>void disableServoEasingInterrupt();\<close> declares the
  function and does not call it.
\<close>

definition stopAllServos :: "state \<Rightarrow> state" where
  "stopAllServos s =
     fold (\<lambda>tServoIndex s1.
             case ServoEasingArray s1 ! tServoIndex of
               None \<Rightarrow> s1
             | Some q \<Rightarrow> this_update q (\<lambda>sv. sv\<lparr>mServoMoves := False\<rparr>) s1)
       (slot_indices s) s"

definition findMaxAndStart :: "state \<Rightarrow> nat \<times> 32 word" where
  "findMaxAndStart s =
     fold (\<lambda>tServoIndex (tMaxMillisForCompleteMove, tMillisAtStartMove).
             case ServoEasingArray s ! tServoIndex of
               None \<Rightarrow> (tMaxMillisForCompleteMove, tMillisAtStartMove)
             | Some q \<Rightarrow>
                if mServoMoves (heap s q)
                then (if mMillisForCompleteMove (heap s q) > tMaxMillisForCompleteMove
                      then mMillisForCompleteMove (heap s q) else tMaxMillisForCompleteMove,
                      mMillisAtStartMove (heap s q))
                else (tMaxMillisForCompleteMove, tMillisAtStartMove))
       (slot_indices s) (0, 0)"

definition synchronizeAllServosAndStartInterrupt :: "bool \<Rightarrow> state \<Rightarrow> state" where
  "synchronizeAllServosAndStartInterrupt aStartUpdateByInterrupt s =
     (let (tMaxMillisForCompleteMove, tMillisAtStartMove) = findMaxAndStart s;
          s1 = fold (\<lambda>tServoIndex s1.
                       case ServoEasingArray s1 ! tServoIndex of
                         None \<Rightarrow> s1
                       | Some q \<Rightarrow>
                          if mServoMoves (heap s1 q)
                          then this_update q
                                 (\<lambda>sv. sv\<lparr>mMillisAtStartMove := tMillisAtStartMove,
                                           mMillisForCompleteMove := tMaxMillisForCompleteMove\<rparr>) s1
                          else s1)
                 (slot_indices s) s
      in if aStartUpdateByInterrupt then enableServoEasingInterrupt s1 else s1)"

subsection \<open>Vocabulary of the statements\<close>

text \<open>
  The objects that \<^verbatim>\<open>ServoEasingArray\<close> holds in the slots up to
  \<^verbatim>\<open>sServoArrayMaxIndex\<close>, and those of them that move, in the order of their slots.
\<close>

definition registered :: "state \<Rightarrow> nat \<Rightarrow> bool" where
  "registered s q = list_ex (\<lambda>i. ServoEasingArray s ! i = Some q) (slot_indices s)"

definition moving_in :: "state \<Rightarrow> nat list \<Rightarrow> nat list" where
  "moving_in s idxs =
     concat (map (\<lambda>i. case ServoEasingArray s ! i of
                         None \<Rightarrow> []
                       | Some q \<Rightarrow> if mServoMoves (heap s q) then [q] else []) idxs)"

definition moving_servos :: "state \<Rightarrow> nat list" where
  "moving_servos s = moving_in s (slot_indices s)"

subsection \<open>Concrete data\<close>

text \<open>
  Values for the macros of the library's header, with the 16 bits that
  \<^verbatim>\<open>uint_fast16_t\<close> has on an AVR target, an object as the
  constructor and \<^verbatim>\<open>attach(pin)\<close> leave it (calibration 544 and 2400 microseconds,
  speed 90, linear easing, at the default pulse width), and a store with this object
  in slot 0.
\<close>

definition default_config :: config where
  "default_config =
     \<lparr>INVALID_SERVO = 255,
      THRESHOLD_VALUE_FOR_INTERPRETING_VALUE_AS_MICROSECONDS = 400,
      MILLIS_IN_ONE_SECOND = 1000,
      CALL_STYLE_MASK = 192,
      CALL_STYLE_BOUNCING_OUT_IN = 192,
      EASE_LINEAR = 0,
      EASE_DUMMY_MOVE = 5,
      UINT_FAST16_BITS = 16\<rparr>"

definition servo_at_rest :: servo where
  "servo_at_rest =
     \<lparr>mServoIndex = 0,
      mServo0DegreeMicrosecondsOrUnits = 544,
      mServo180DegreeMicrosecondsOrUnits = 2400,
      mTrimMicrosecondsOrUnits = 0,
      mOperateServoReverse = False,
      mCurrentMicrosecondsOrUnits = 1500,
      mStartMicrosecondsOrUnits = 0,
      mEndMicrosecondsOrUnits = 0,
      mDeltaMicrosecondsOrUnits = 0,
      mMillisAtStartMove = 0,
      mMillisForCompleteMove = 0,
      mSpeed = 90,
      mEasingType = 0,
      mServoMoves = False,
      TargetPositionReachedHandler = None\<rparr>"

definition narrow_servo :: servo where
  "narrow_servo =
     servo_at_rest\<lparr>mServo0DegreeMicrosecondsOrUnits := 1000,
                    mServo180DegreeMicrosecondsOrUnits := 1500\<rparr>"

definition detached_servo :: servo where
  "detached_servo = servo_at_rest\<lparr>mServoIndex := 255\<rparr>"

definition empty_store :: state where
  "empty_store =
     \<lparr>heap = (\<lambda>_. detached_servo),
      ServoEasingArray = [None, None, None],
      sServoArrayMaxIndex = 0,
      ServoEasingNextPositionArray = [0, 0, 0],
      sInterruptsAreActive = False,
      millis = 0,
      trace = []\<rparr>"

definition one_servo :: "servo \<Rightarrow> state" where
  "one_servo sv =
     empty_store\<lparr>heap := (heap empty_store)(0 := sv),
                  ServoEasingArray := [Some 0, None, None]\<rparr>"

text \<open>
  Three attached objects: the first two move, with durations 1000 and 2000
  milliseconds and start times 5 and 7, the third is at rest.
\<close>

definition three_servos :: state where
  "three_servos =
     empty_store
       \<lparr>heap := (heap empty_store)
            (0 := servo_at_rest\<lparr>mMillisAtStartMove := 5, mMillisForCompleteMove := 1000,
                                 mServoMoves := True\<rparr>,
             1 := servo_at_rest\<lparr>mServoIndex := 1, mMillisAtStartMove := 7,
                                 mMillisForCompleteMove := 2000, mServoMoves := True\<rparr>,
             2 := servo_at_rest\<lparr>mServoIndex := 2\<rparr>),
        ServoEasingArray := [Some 0, Some 1, Some 2],
        sServoArrayMaxIndex := 2,
        sInterruptsAreActive := True\<rparr>"

text \<open>
  A move of 1000 milliseconds to 2400 microseconds that started at time 0, with the
  handler at address 0 registered, and two handlers: one starts the next move of the
  object it is called with, the other sets its speed.
\<close>

definition moving_servo :: servo where
  "moving_servo =
     servo_at_rest\<lparr>mStartMicrosecondsOrUnits := 1500,
                    mEndMicrosecondsOrUnits := 2400,
                    mDeltaMicrosecondsOrUnits := 900,
                    mMillisForCompleteMove := 1000,
                    mServoMoves := True,
                    TargetPositionReachedHandler := Some 0\<rparr>"

definition restarting_handler :: "nat \<Rightarrow> nat \<Rightarrow> state \<Rightarrow> state" where
  "restarting_handler h p s = snd (startEaseToD default_config p 0 1000 False s)"

definition speed_handler :: "nat \<Rightarrow> nat \<Rightarrow> state \<Rightarrow> state" where
  "speed_handler h p s = setSpeed default_config p 45 s"

definition no_easing :: "servo \<Rightarrow> 32 word \<Rightarrow> int" where
  "no_easing sv t = mStartMicrosecondsOrUnits sv"

text \<open>An object without its current position: what a tick before the end leaves as it is.\<close>

definition forget_current :: "servo \<Rightarrow> servo" where
  "forget_current sv = sv\<lparr>mCurrentMicrosecondsOrUnits := 0\<rparr>"

definition move_ended :: state where
  "move_ended = (one_servo moving_servo)\<lparr>millis := 1000\<rparr>"

definition interrupt_driven_move :: state where
  "interrupt_driven_move = (one_servo moving_servo)\<lparr>sInterruptsAreActive := True\<rparr>"

text \<open>An object with a trim of 10 microseconds that operates in reverse.\<close>

definition trimmed_reversed :: state where
  "trimmed_reversed =
     one_servo (servo_at_rest\<lparr>mTrimMicrosecondsOrUnits := 10, mOperateServoReverse := True\<rparr>)"

text \<open>An object at 0 degree with a quadratic easing in the bouncing call style.\<close>

definition bouncing :: state where
  "bouncing =
     one_servo (servo_at_rest\<lparr>mCurrentMicrosecondsOrUnits := 544, mEasingType := 193\<rparr>)"



text \<open>An object at rest at 0 degree, with the linear easing.\<close>

definition at_zero_degree :: state where
  "at_zero_degree = one_servo (servo_at_rest\<lparr>mCurrentMicrosecondsOrUnits := 544\<rparr>)"


text \<open>A list of events that holds only pulses of the object \<open>p\<close>, and no call of a handler.\<close>

definition pulses_of :: "nat \<Rightarrow> event list \<Rightarrow> bool" where
  "pulses_of p evs = list_all (\<lambda>e. case e of Pulse q v \<Rightarrow> q = p | Reached h q \<Rightarrow> False) evs"

section \<open>Properties\<close>

subsection \<open>Auxiliary facts\<close>

lemma sdiv_nonneg: "0 \<le> a \<Longrightarrow> 0 < b \<Longrightarrow> a sdiv b = a div (b::int)"
  by (simp add: signed_divide_int_def sgn_if)

lemma roundtrip_aux:
  fixes R d :: int
  assumes "928 < R" "0 \<le> d"
  shows "(((d * R) div 180) * 180 + 928) div R = d"
proof -
  define r where "r = (d * R) mod 180"
  have r: "0 \<le> r" "r < 180" by (simp_all add: r_def)
  have eq: "((d * R) div 180) * 180 = d * R - r"
    unfolding r_def by (simp add: minus_mod_eq_div_mult)
  have small: "(928 - r) div R = 0"
    using assms r by (intro div_pos_pos_trivial) linarith+
  have "(d * R - r + 928) div R = ((928 - r) + d * R) div R"
    by (simp add: algebra_simps)
  also have "\<dots> = (928 - r) div R + d"
    using assms by (subst div_mult_self1) simp_all
  finally show ?thesis using small eq by simp
qed

lemma uint_fast16_idem [simp]: "uint_fast16 cfg (uint_fast16 cfg n) = uint_fast16 cfg n"
  by (simp add: uint_fast16_def)

lemma uint_fast16_reduced:
  "uint_fast16 cfg (nat (take_bit (UINT_FAST16_BITS cfg) (x::int))) = nat (take_bit (UINT_FAST16_BITS cfg) x)"
  "uint_fast16 cfg (take_bit (UINT_FAST16_BITS cfg) (n::nat)) = take_bit (UINT_FAST16_BITS cfg) n"
proof -
  have "nat (take_bit (UINT_FAST16_BITS cfg) x) < 2 ^ UINT_FAST16_BITS cfg"
    by (simp add: nat_less_iff)
  then show "uint_fast16 cfg (nat (take_bit (UINT_FAST16_BITS cfg) x)) = nat (take_bit (UINT_FAST16_BITS cfg) x)"
    by (simp add: uint_fast16_def take_bit_nat_eq_self)
  show "uint_fast16 cfg (take_bit (UINT_FAST16_BITS cfg) n) = take_bit (UINT_FAST16_BITS cfg) n"
    by (simp add: uint_fast16_def)
qed

lemma speed_one: "(if uint_fast16 cfg 1 = 0 then 1 else uint_fast16 cfg 1) = 1"
  by (cases "UINT_FAST16_BITS cfg") (simp_all add: uint_fast16_def)

lemma startEaseToD_attached:
  assumes "mServoIndex (heap s p) \<noteq> INVALID_SERVO cfg"
  shows "startEaseToD cfg p a D b s =
     (\<not> mServoMoves (heap s p),
      s\<lparr>heap := (heap s)
           (p := (heap s p)
              \<lparr>mEndMicrosecondsOrUnits :=
                 (if mEasingType (heap s p) AND CALL_STYLE_MASK cfg = CALL_STYLE_BOUNCING_OUT_IN cfg
                  then mCurrentMicrosecondsOrUnits (heap s p)
                  else if mEasingType (heap s p) = EASE_DUMMY_MOVE cfg
                  then mEndMicrosecondsOrUnits (heap s p)
                  else DegreeToMicrosecondsOrUnits cfg (heap s p) a),
               mDeltaMicrosecondsOrUnits :=
                 (if mEasingType (heap s p) = EASE_DUMMY_MOVE cfg
                  then mEndMicrosecondsOrUnits (heap s p)
                  else DegreeToMicrosecondsOrUnits cfg (heap s p) a)
                 - mCurrentMicrosecondsOrUnits (heap s p),
               mMillisForCompleteMove := uint_fast16 cfg D,
               mStartMicrosecondsOrUnits := mCurrentMicrosecondsOrUnits (heap s p),
               mMillisAtStartMove := millis s,
               mServoMoves := True\<rparr>),
        ServoEasingNextPositionArray :=
          (if mEasingType (heap s p) = EASE_DUMMY_MOVE cfg then ServoEasingNextPositionArray s
           else (ServoEasingNextPositionArray s)[mServoIndex (heap s p) := a]),
        sInterruptsAreActive := (b \<or> sInterruptsAreActive s)\<rparr>)"
  using assms
  by (auto simp: startEaseToD_def Let_def this_update_def enableServoEasingInterrupt_def
      DegreeToMicrosecondsOrUnits_def intro!: state.equality)

lemma startEaseTo_Some:
  assumes "mServo180DegreeMicrosecondsOrUnits (heap s p) \<noteq> mServo0DegreeMicrosecondsOrUnits (heap s p)"
  shows "\<exists>t c. (if THRESHOLD_VALUE_FOR_INTERPRETING_VALUE_AS_MICROSECONDS cfg \<le> a
                 then MicrosecondsToDegree (heap s p) a else Some a) = Some t
             \<and> MicrosecondsOrUnitsToDegree (heap s p) (mCurrentMicrosecondsOrUnits (heap s p)) = Some c
             \<and> startEaseTo cfg p a v b s =
                 Some (startEaseToD cfg p a
                   (if mEasingType (heap s p) AND CALL_STYLE_MASK cfg
                            = CALL_STYLE_BOUNCING_OUT_IN cfg
                    then take_bit (UINT_FAST16_BITS cfg)
                      (2 * nat (take_bit (UINT_FAST16_BITS cfg)
                              ((\<bar>t - c\<bar> * MILLIS_IN_ONE_SECOND cfg)
                                 sdiv int (if take_bit (UINT_FAST16_BITS cfg) v = 0 then 1
                                           else take_bit (UINT_FAST16_BITS cfg) v))))
                    else nat (take_bit (UINT_FAST16_BITS cfg)
                              ((\<bar>t - c\<bar> * MILLIS_IN_ONE_SECOND cfg)
                                 sdiv int (if take_bit (UINT_FAST16_BITS cfg) v = 0 then 1
                                           else take_bit (UINT_FAST16_BITS cfg) v)))) b s)"
proof -
  have c: "\<And>n::nat. n * 2 = 2 * n" by simp
  show ?thesis
    using assms
    by (simp add: startEaseTo_def MicrosecondsToDegree_def MicrosecondsOrUnitsToDegree_def
        Let_def uint_fast16_def c)
qed

lemma writeMicrosecondsOrUnits_attached:
  assumes "mServoIndex (heap s p) \<noteq> INVALID_SERVO cfg"
  shows "writeMicrosecondsOrUnits cfg p u s =
           s\<lparr>heap := (heap s)(p := (heap s p)\<lparr>mCurrentMicrosecondsOrUnits := u\<rparr>),
             trace := trace s @
               [Pulse p (if mOperateServoReverse (heap s p)
                         then mServo180DegreeMicrosecondsOrUnits (heap s p)
                                - ((u + mTrimMicrosecondsOrUnits (heap s p))
                                     - mServo0DegreeMicrosecondsOrUnits (heap s p))
                         else u + mTrimMicrosecondsOrUnits (heap s p))]\<rparr>"
  using assms by (simp add: writeMicrosecondsOrUnits_def this_update_def Let_def)

lemma writeMicrosecondsOrUnits_forget:
  "forget_current (heap (writeMicrosecondsOrUnits cfg p u s) p) = forget_current (heap s p)"
  by (simp add: writeMicrosecondsOrUnits_def this_update_def forget_current_def Let_def)

lemma writeMicrosecondsOrUnits_reached:
  "reached_calls p (writeMicrosecondsOrUnits cfg q u s) = reached_calls p s"
  by (simp add: writeMicrosecondsOrUnits_def this_update_def Let_def reached_calls_def)

lemma update_at_end:
  assumes "mServoMoves (heap s p)"
    and "mMillisForCompleteMove (heap s p) \<le> unat (millis s - mMillisAtStartMove (heap s p))"
  shows "update cfg hs ef p s =
     (let s3 = callTargetPositionReachedHandler hs p
                 (this_update p (\<lambda>sv. sv\<lparr>mServoMoves := False\<rparr>)
                    (writeMicrosecondsOrUnits cfg p (mEndMicrosecondsOrUnits (heap s p)) s))
      in (\<not> mServoMoves (heap s3 p), s3))"
  using assms by (simp add: update_def Let_def)

lemma update_before_end:
  assumes "unat (millis s - mMillisAtStartMove (heap s p)) < mMillisForCompleteMove (heap s p)"
  shows "forget_current (heap (snd (update cfg hs ef p s)) p) = forget_current (heap s p)"
    and "reached_calls p (snd (update cfg hs ef p s)) = reached_calls p s"
  using assms
  by (simp_all add: update_def Let_def writeMicrosecondsOrUnits_forget
      writeMicrosecondsOrUnits_reached)

lemma update_not_moving:
  "\<not> mServoMoves (heap s p) \<Longrightarrow> update cfg hs ef p s = (True, s)"
  by (simp add: update_def)

lemma forget_current_fields:
  assumes "forget_current a = forget_current b"
  shows "mServoMoves a = mServoMoves b"
    and "mMillisAtStartMove a = mMillisAtStartMove b"
    and "mMillisForCompleteMove a = mMillisForCompleteMove b"
    and "mEndMicrosecondsOrUnits a = mEndMicrosecondsOrUnits b"
    and "TargetPositionReachedHandler a = TargetPositionReachedHandler b"
    and "mServoIndex a = mServoIndex b"
    and "mTrimMicrosecondsOrUnits a = mTrimMicrosecondsOrUnits b"
    and "mOperateServoReverse a = mOperateServoReverse b"
    and "mServo0DegreeMicrosecondsOrUnits a = mServo0DegreeMicrosecondsOrUnits b"
    and "mServo180DegreeMicrosecondsOrUnits a = mServo180DegreeMicrosecondsOrUnits b"
proof -
  have "\<And>f. f (forget_current a) = f (forget_current b)" using assms by simp
  note * = this
  show "mServoMoves a = mServoMoves b" using * [of mServoMoves] by (simp add: forget_current_def)
  show "mMillisAtStartMove a = mMillisAtStartMove b"
    using * [of mMillisAtStartMove] by (simp add: forget_current_def)
  show "mMillisForCompleteMove a = mMillisForCompleteMove b"
    using * [of mMillisForCompleteMove] by (simp add: forget_current_def)
  show "mEndMicrosecondsOrUnits a = mEndMicrosecondsOrUnits b"
    using * [of mEndMicrosecondsOrUnits] by (simp add: forget_current_def)
  show "TargetPositionReachedHandler a = TargetPositionReachedHandler b"
    using * [of TargetPositionReachedHandler] by (simp add: forget_current_def)
  show "mServoIndex a = mServoIndex b" using * [of mServoIndex] by (simp add: forget_current_def)
  show "mTrimMicrosecondsOrUnits a = mTrimMicrosecondsOrUnits b"
    using * [of mTrimMicrosecondsOrUnits] by (simp add: forget_current_def)
  show "mOperateServoReverse a = mOperateServoReverse b"
    using * [of mOperateServoReverse] by (simp add: forget_current_def)
  show "mServo0DegreeMicrosecondsOrUnits a = mServo0DegreeMicrosecondsOrUnits b"
    using * [of mServo0DegreeMicrosecondsOrUnits] by (simp add: forget_current_def)
  show "mServo180DegreeMicrosecondsOrUnits a = mServo180DegreeMicrosecondsOrUnits b"
    using * [of mServo180DegreeMicrosecondsOrUnits] by (simp add: forget_current_def)
qed

lemma ticks_before_end:
  assumes "\<forall>t \<in> set ts. unat (t - mMillisAtStartMove (heap s p)) < mMillisForCompleteMove (heap s p)"
  shows "forget_current (heap (ticks cfg hs ef p ts s) p) = forget_current (heap s p)
       \<and> reached_calls p (ticks cfg hs ef p ts s) = reached_calls p s"
  using assms
proof (induction ts arbitrary: s)
  case Nil
  show ?case by simp
next
  case (Cons t ts)
  let ?s0 = "s\<lparr>millis := t\<rparr>"
  let ?s1 = "snd (update cfg hs ef p ?s0)"
  have early: "unat (millis ?s0 - mMillisAtStartMove (heap ?s0 p)) < mMillisForCompleteMove (heap ?s0 p)"
    using Cons.prems by simp
  have f: "forget_current (heap ?s1 p) = forget_current (heap s p)"
    using update_before_end(1) [OF early] by simp
  have r: "reached_calls p ?s1 = reached_calls p s"
    using update_before_end(2) [OF early] by (simp add: reached_calls_def)
  have "\<forall>t \<in> set ts. unat (t - mMillisAtStartMove (heap ?s1 p)) < mMillisForCompleteMove (heap ?s1 p)"
    using Cons.prems forget_current_fields(2,3) [OF f] by simp
  from Cons.IH [OF this] show ?case
    by (simp add: f r)
qed

lemma ticks_not_moving:
  "\<not> mServoMoves (heap s p) \<Longrightarrow>
     heap (ticks cfg hs ef p ts s) = heap s \<and> trace (ticks cfg hs ef p ts s) = trace s"
  by (induction ts arbitrary: s) (simp_all add: update_not_moving)

lemma ticks_append:
  "ticks cfg hs ef p (ts @ ts') s = ticks cfg hs ef p ts' (ticks cfg hs ef p ts s)"
  by (induction ts arbitrary: s) simp_all

lemma pulses_of_simps [simp]:
  "pulses_of p []" "pulses_of p [Pulse p v]"
  "pulses_of p (xs @ ys) \<longleftrightarrow> pulses_of p xs \<and> pulses_of p ys"
  by (simp_all add: pulses_of_def)

lemma writeMicrosecondsOrUnits_frame:
  "(writeMicrosecondsOrUnits cfg p u s)\<lparr>heap := heap s, trace := trace s\<rparr> = s"
  "q \<noteq> p \<Longrightarrow> heap (writeMicrosecondsOrUnits cfg p u s) q = heap s q"
  "\<exists>evs. trace (writeMicrosecondsOrUnits cfg p u s) = trace s @ evs \<and> pulses_of p evs"
  by (simp_all add: writeMicrosecondsOrUnits_def this_update_def Let_def)

lemma update_before_end_frame:
  assumes "unat (millis s - mMillisAtStartMove (heap s p)) < mMillisForCompleteMove (heap s p)"
  shows "(snd (update cfg hs ef p s))\<lparr>heap := heap s, trace := trace s\<rparr> = s"
    and "q \<noteq> p \<Longrightarrow> heap (snd (update cfg hs ef p s)) q = heap s q"
    and "\<exists>evs. trace (snd (update cfg hs ef p s)) = trace s @ evs \<and> pulses_of p evs"
proof -
  have "snd (update cfg hs ef p s) = s
        \<or> (\<exists>u. snd (update cfg hs ef p s) = writeMicrosecondsOrUnits cfg p u s)"
    using assms by (auto simp: update_def Let_def)
  then consider "snd (update cfg hs ef p s) = s"
    | u where "snd (update cfg hs ef p s) = writeMicrosecondsOrUnits cfg p u s"
    by blast
  note c = this
  show "(snd (update cfg hs ef p s))\<lparr>heap := heap s, trace := trace s\<rparr> = s"
    by (cases rule: c) (simp_all add: writeMicrosecondsOrUnits_frame)
  show "q \<noteq> p \<Longrightarrow> heap (snd (update cfg hs ef p s)) q = heap s q"
    by (cases rule: c) (simp_all add: writeMicrosecondsOrUnits_frame)
  show "\<exists>evs. trace (snd (update cfg hs ef p s)) = trace s @ evs \<and> pulses_of p evs"
  proof (cases rule: c)
    case 1
    then show ?thesis by (intro exI [of _ "[]"]) simp
  next
    case (2 u)
    then show ?thesis by (simp add: writeMicrosecondsOrUnits_frame)
  qed
qed

lemma ticks_before_end_frame:
  assumes "\<forall>t \<in> set ts. unat (t - mMillisAtStartMove (heap s p)) < mMillisForCompleteMove (heap s p)"
  shows "(ticks cfg hs ef p ts s)\<lparr>heap := heap s, trace := trace s, millis := millis s\<rparr> = s
       \<and> (\<forall>q. q \<noteq> p \<longrightarrow> heap (ticks cfg hs ef p ts s) q = heap s q)
       \<and> (\<exists>evs. trace (ticks cfg hs ef p ts s) = trace s @ evs \<and> pulses_of p evs)"
  using assms
proof (induction ts arbitrary: s)
  case Nil
  show ?case by simp
next
  case (Cons t ts)
  let ?s0 = "s\<lparr>millis := t\<rparr>"
  let ?s1 = "snd (update cfg hs ef p ?s0)"
  have early: "unat (millis ?s0 - mMillisAtStartMove (heap ?s0 p)) < mMillisForCompleteMove (heap ?s0 p)"
    using Cons.prems by simp
  note u = update_before_end_frame [where cfg = cfg and hs = hs and ef = ef, OF early]
  have f: "forget_current (heap ?s1 p) = forget_current (heap s p)"
    using update_before_end(1) [OF early] by simp
  have "\<forall>t \<in> set ts. unat (t - mMillisAtStartMove (heap ?s1 p)) < mMillisForCompleteMove (heap ?s1 p)"
    using Cons.prems forget_current_fields(2,3) [OF f] by simp
  note ih = Cons.IH [OF this]
  let ?X = "ticks cfg hs ef p ts ?s1"
  have a: "?X\<lparr>heap := heap s, trace := trace s, millis := millis s\<rparr> = s"
  proof -
    have "?X\<lparr>heap := heap ?s1, trace := trace ?s1, millis := millis ?s1\<rparr>
            \<lparr>heap := heap s, trace := trace s, millis := millis s\<rparr>
          = ?s1\<lparr>heap := heap s, trace := trace s, millis := millis s\<rparr>"
      using ih by simp
    moreover have "?s1\<lparr>heap := heap ?s0, trace := trace ?s0\<rparr>
                      \<lparr>heap := heap s, trace := trace s, millis := millis s\<rparr>
          = ?s0\<lparr>heap := heap s, trace := trace s, millis := millis s\<rparr>"
      using u(1) by simp
    ultimately show ?thesis by simp
  qed
  have b: "\<forall>q. q \<noteq> p \<longrightarrow> heap ?X q = heap s q"
    using ih u(2) by simp
  obtain e1 where e1: "trace ?s1 = trace s @ e1" "pulses_of p e1"
    using u(3) by auto
  obtain e2 where e2: "trace ?X = trace ?s1 @ e2" "pulses_of p e2"
    using ih by auto
  have c: "\<exists>evs. trace ?X = trace s @ evs \<and> pulses_of p evs"
    using e1 e2 by (intro exI [of _ "e1 @ e2"]) simp
  from a b c show ?case by simp
qed

lemma ticks_not_moving_frame:
  "\<not> mServoMoves (heap s p) \<Longrightarrow> (ticks cfg hs ef p ts s)\<lparr>millis := millis s\<rparr> = s"
proof (induction ts arbitrary: s)
  case Nil
  show ?case by simp
next
  case (Cons t ts)
  have "(ticks cfg hs ef p ts (s\<lparr>millis := t\<rparr>))\<lparr>millis := millis (s\<lparr>millis := t\<rparr>)\<rparr>
           \<lparr>millis := millis s\<rparr> = s\<lparr>millis := t\<rparr>\<lparr>millis := millis s\<rparr>"
    using Cons.IH [of "s\<lparr>millis := t\<rparr>"] Cons.prems by simp
  then show ?case
    using Cons.prems by (simp add: update_not_moving)
qed

lemma end_tick:
  assumes "mServoMoves (heap s p)"
    and "TargetPositionReachedHandler (heap s p) = Some h"
    and "mMillisForCompleteMove (heap s p) \<le> unat (millis s - mMillisAtStartMove (heap s p))"
  shows "snd (update cfg hs ef p s) =
     hs h p
       (let s1 = writeMicrosecondsOrUnits cfg p (mEndMicrosecondsOrUnits (heap s p)) s;
            s2 = this_update p (\<lambda>sv. sv\<lparr>mServoMoves := False\<rparr>) s1
        in s2\<lparr>trace := trace s2 @ [Reached h p]\<rparr>)"
proof -
  let ?w = "writeMicrosecondsOrUnits cfg p (mEndMicrosecondsOrUnits (heap s p)) s"
  have "forget_current (heap ?w p) = forget_current (heap s p)"
    by (rule writeMicrosecondsOrUnits_forget)
  from forget_current_fields(5) [OF this]
  have "TargetPositionReachedHandler
          (heap (this_update p (\<lambda>sv. sv\<lparr>mServoMoves := False\<rparr>) ?w) p) = Some h"
    using assms(2) by (simp add: this_update_def)
  then show ?thesis
    using assms(1,3) by (simp add: update_at_end Let_def callTargetPositionReachedHandler_def)
qed

lemma fold_this_update:
  assumes idem: "\<And>x. f (f x) = f x"
  shows "fold (\<lambda>i s1. case ServoEasingArray s1 ! i of
                        None \<Rightarrow> s1
                      | Some q \<Rightarrow> this_update q f s1) idxs s
         = s\<lparr>heap := (\<lambda>q. if list_ex (\<lambda>i. ServoEasingArray s ! i = Some q) idxs
                          then f (heap s q) else heap s q)\<rparr>"
proof (induction idxs arbitrary: s)
  case Nil
  show ?case by simp
next
  case (Cons i idxs)
  show ?case
  proof (cases "ServoEasingArray s ! i")
    case None
    then show ?thesis by (simp add: Cons.IH)
  next
    case (Some q)
    show ?thesis
      unfolding fold_simps Cons.IH
      by (rule state.equality) (auto simp: Some this_update_def fun_eq_iff idem)
  qed
qed

lemma set_moving_in:
  "q \<in> set (moving_in s idxs) \<longleftrightarrow>
     list_ex (\<lambda>i. ServoEasingArray s ! i = Some q) idxs \<and> mServoMoves (heap s q)"
  by (induction idxs) (auto simp: moving_in_def split: option.splits)

lemma set_moving_servos:
  "q \<in> set (moving_servos s) \<longleftrightarrow> registered s q \<and> mServoMoves (heap s q)"
  by (simp add: moving_servos_def registered_def set_moving_in)

lemma fold_findMaxAndStart:
  "fold (\<lambda>tServoIndex (tMaxMillisForCompleteMove, tMillisAtStartMove).
             case ServoEasingArray s ! tServoIndex of
               None \<Rightarrow> (tMaxMillisForCompleteMove, tMillisAtStartMove)
             | Some q \<Rightarrow>
                if mServoMoves (heap s q)
                then (if mMillisForCompleteMove (heap s q) > tMaxMillisForCompleteMove
                      then mMillisForCompleteMove (heap s q) else tMaxMillisForCompleteMove,
                      mMillisAtStartMove (heap s q))
                else (tMaxMillisForCompleteMove, tMillisAtStartMove))
       idxs (m, t)
   = (fold max (map (\<lambda>q. mMillisForCompleteMove (heap s q)) (moving_in s idxs)) m,
      if moving_in s idxs = [] then t
      else mMillisAtStartMove (heap s (last (moving_in s idxs))))"
proof (induction idxs arbitrary: m t)
  case Nil
  show ?case by (simp add: moving_in_def)
next
  case (Cons i idxs)
  have mi: "moving_in s (i # idxs) =
      (case ServoEasingArray s ! i of None \<Rightarrow> []
       | Some q \<Rightarrow> if mServoMoves (heap s q) then [q] else []) @ moving_in s idxs"
    by (simp add: moving_in_def)
  show ?case
    unfolding fold_simps mi
    by (cases "ServoEasingArray s ! i") (simp_all add: Cons.IH max_def)
qed

lemma findMaxAndStart_eq:
  "findMaxAndStart s =
     (Max (set (0 # map (\<lambda>q. mMillisForCompleteMove (heap s q)) (moving_servos s))),
      if moving_servos s = [] then 0
      else mMillisAtStartMove (heap s (last (moving_servos s))))"
  unfolding findMaxAndStart_def moving_servos_def fold_findMaxAndStart
  by (simp only: Max.set_eq_fold)







subsection \<open>Synchronising the moving servos\<close>

text \<open>
  Claim C1. After \<^verbatim>\<open>synchronizeAllServosAndStartInterrupt\<close>, every object that was in
  the list and moving has as \<open>mMillisForCompleteMove\<close> the maximum of that field over
  all moving objects before the call, and as \<open>mMillisAtStartMove\<close> one common value,
  that of the moving object in the highest slot; it is unchanged otherwise. Every
  object that was not in the list or not moving is unchanged in all its fields.
\<close>

theorem synchronize_all:
  "(\<forall>p \<in> set (moving_servos s).
      heap (synchronizeAllServosAndStartInterrupt b s) p =
        (heap s p)\<lparr>mMillisAtStartMove :=
                      mMillisAtStartMove (heap s (last (moving_servos s))),
                    mMillisForCompleteMove :=
                      Max (set (map (\<lambda>q. mMillisForCompleteMove (heap s q)) (moving_servos s)))\<rparr>)
   \<and> (\<forall>p. p \<notin> set (moving_servos s) \<longrightarrow>
        heap (synchronizeAllServosAndStartInterrupt b s) p = heap s p)"
proof -
  obtain tMax tStart where f: "findMaxAndStart s = (tMax, tStart)"
    by (cases "findMaxAndStart s")
  let ?g = "\<lambda>sv. if mServoMoves sv
                  then sv\<lparr>mMillisAtStartMove := tStart, mMillisForCompleteMove := tMax\<rparr>
                  else sv"
  have step: "(\<lambda>tServoIndex s1.
                 case ServoEasingArray s1 ! tServoIndex of
                   None \<Rightarrow> s1
                 | Some q \<Rightarrow>
                    if mServoMoves (heap s1 q)
                    then this_update q
                           (\<lambda>sv. sv\<lparr>mMillisAtStartMove := tStart,
                                     mMillisForCompleteMove := tMax\<rparr>) s1
                    else s1)
            = (\<lambda>i s1. case ServoEasingArray s1 ! i of
                        None \<Rightarrow> s1
                      | Some q \<Rightarrow> this_update q ?g s1)"
    by (auto simp: fun_eq_iff this_update_def split: option.splits)
  have heap_eq: "heap (synchronizeAllServosAndStartInterrupt b s) =
       (\<lambda>q. if registered s q then ?g (heap s q) else heap s q)"
    unfolding synchronizeAllServosAndStartInterrupt_def f Let_def prod.case step registered_def
      fold_this_update [of ?g, simplified]
    by (simp add: enableServoEasingInterrupt_def)
  have tStart: "moving_servos s \<noteq> [] \<Longrightarrow>
        tStart = mMillisAtStartMove (heap s (last (moving_servos s)))"
    using f by (simp add: findMaxAndStart_eq)
  have tMax: "moving_servos s \<noteq> [] \<Longrightarrow>
        tMax = Max (set (map (\<lambda>q. mMillisForCompleteMove (heap s q)) (moving_servos s)))"
    using f by (simp add: findMaxAndStart_eq)
  show ?thesis
  proof (intro conjI ballI allI impI)
    fix p assume p: "p \<in> set (moving_servos s)"
    then have ne: "moving_servos s \<noteq> []" by auto
    from p show "heap (synchronizeAllServosAndStartInterrupt b s) p =
        (heap s p)\<lparr>mMillisAtStartMove :=
                      mMillisAtStartMove (heap s (last (moving_servos s))),
                    mMillisForCompleteMove :=
                      Max (set (map (\<lambda>q. mMillisForCompleteMove (heap s q)) (moving_servos s)))\<rparr>"
      using tStart [OF ne] tMax [OF ne] by (simp add: heap_eq set_moving_servos)
  next
    fix p assume "p \<notin> set (moving_servos s)"
    then show "heap (synchronizeAllServosAndStartInterrupt b s) p = heap s p"
      by (auto simp: heap_eq set_moving_servos)
  qed
qed

theorem synchronize_all_witness:
  "0 \<in> set (moving_servos three_servos)
   \<and> 2 \<notin> set (moving_servos three_servos)
   \<and> mMillisForCompleteMove (heap (synchronizeAllServosAndStartInterrupt False three_servos) 0) = 2000
   \<and> mMillisAtStartMove (heap (synchronizeAllServosAndStartInterrupt False three_servos) 0) = 7
   \<and> heap (synchronizeAllServosAndStartInterrupt False three_servos) 2 = heap three_servos 2"
proof -
  have m: "moving_servos three_servos = [0, 1]"
    by (simp add: moving_servos_def moving_in_def slot_indices_def three_servos_def
        empty_store_def servo_at_rest_def upt_rec)
  have v: "mMillisForCompleteMove (heap three_servos 0) = 1000"
    "mMillisForCompleteMove (heap three_servos (Suc 0)) = 2000"
    "mMillisAtStartMove (heap three_servos (Suc 0)) = 7"
    by (simp_all add: three_servos_def empty_store_def servo_at_rest_def)
  show ?thesis
    using synchronize_all [of three_servos False]
    by (simp add: m v)
qed

subsection \<open>The last tick of a move\<close>

text \<open>
  Claim C2, as stated, fails: a moving object whose handler starts the next move is
  moving again after the tick at the end of the move, and \<^verbatim>\<open>update\<close> returns false.
\<close>

theorem update_restart_counterexample:
  "mServoMoves (heap move_ended 0)
   \<and> mMillisForCompleteMove (heap move_ended 0)
        \<le> unat (millis move_ended - mMillisAtStartMove (heap move_ended 0))
   \<and> fst (update default_config restarting_handler no_easing 0 move_ended) = False
   \<and> mServoMoves (heap (snd (update default_config restarting_handler no_easing 0 move_ended)) 0)"
  by (simp add: update_def Let_def move_ended_def one_servo_def empty_store_def moving_servo_def
      servo_at_rest_def default_config_def restarting_handler_def startEaseToD_def
      writeMicrosecondsOrUnits_def this_update_def callTargetPositionReachedHandler_def
      DegreeToMicrosecondsOrUnits_def map_long_def)

text \<open>
  Claim C2, amended. For an attached moving object, after any ticks before the end of
  the move, \<^verbatim>\<open>update\<close> at an elapsed time of at least \<open>mMillisForCompleteMove\<close>
  stores \<open>mEndMicrosecondsOrUnits\<close> as the current position, writes it as the pulse
  (with trim and reverse), clears the moving flag and then calls the handler, if one is
  registered; it returns the negation of the moving flag the handler leaves, which is
  the stopped status when no handler is registered.
\<close>

theorem update_at_end_of_move:
  assumes "mServoMoves (heap s p)"
    and "mServoIndex (heap s p) \<noteq> INVALID_SERVO cfg"
    and "\<forall>t' \<in> set ts. unat (t' - mMillisAtStartMove (heap s p)) < mMillisForCompleteMove (heap s p)"
    and "mMillisForCompleteMove (heap s p) \<le> unat (t - mMillisAtStartMove (heap s p))"
  shows "let s1 = (ticks cfg hs ef p ts s)\<lparr>millis := t\<rparr>;
             s2 = s1\<lparr>heap := (heap s1)
                        (p := (heap s1 p)\<lparr>mCurrentMicrosecondsOrUnits :=
                                             mEndMicrosecondsOrUnits (heap s p),
                                           mServoMoves := False\<rparr>),
                     trace := trace s1 @
                        [Pulse p (if mOperateServoReverse (heap s p)
                                  then mServo180DegreeMicrosecondsOrUnits (heap s p)
                                         - ((mEndMicrosecondsOrUnits (heap s p)
                                              + mTrimMicrosecondsOrUnits (heap s p))
                                            - mServo0DegreeMicrosecondsOrUnits (heap s p))
                                  else mEndMicrosecondsOrUnits (heap s p)
                                         + mTrimMicrosecondsOrUnits (heap s p))]\<rparr>;
             s3 = callTargetPositionReachedHandler hs p s2
         in update cfg hs ef p s1 = (\<not> mServoMoves (heap s3 p), s3)
            \<and> (TargetPositionReachedHandler (heap s p) = None \<longrightarrow>
                  update cfg hs ef p s1 = (True, s2))"
proof -
  let ?s1 = "(ticks cfg hs ef p ts s)\<lparr>millis := t\<rparr>"
  have f: "forget_current (heap ?s1 p) = forget_current (heap s p)"
    using ticks_before_end [OF assms(3), of cfg hs ef] by simp
  note fs = forget_current_fields [OF f]
  have m: "mServoMoves (heap ?s1 p)" using fs(1) assms(1) by simp
  have e: "mMillisForCompleteMove (heap ?s1 p) \<le> unat (millis ?s1 - mMillisAtStartMove (heap ?s1 p))"
    using fs(2,3) assms(4) by simp
  have a: "mServoIndex (heap ?s1 p) \<noteq> INVALID_SERVO cfg" using fs(6) assms(2) by simp
  have w: "writeMicrosecondsOrUnits cfg p (mEndMicrosecondsOrUnits (heap ?s1 p)) ?s1 =
      ?s1\<lparr>heap := (heap ?s1)(p := (heap ?s1 p)\<lparr>mCurrentMicrosecondsOrUnits :=
                                                 mEndMicrosecondsOrUnits (heap s p)\<rparr>),
           trace := trace ?s1 @
             [Pulse p (if mOperateServoReverse (heap s p)
                       then mServo180DegreeMicrosecondsOrUnits (heap s p)
                              - ((mEndMicrosecondsOrUnits (heap s p)
                                   + mTrimMicrosecondsOrUnits (heap s p))
                                 - mServo0DegreeMicrosecondsOrUnits (heap s p))
                       else mEndMicrosecondsOrUnits (heap s p)
                              + mTrimMicrosecondsOrUnits (heap s p))]\<rparr>"
    unfolding writeMicrosecondsOrUnits_attached [OF a] fs ..
  let ?s2 = "?s1\<lparr>heap := (heap ?s1)
                        (p := (heap ?s1 p)\<lparr>mCurrentMicrosecondsOrUnits :=
                                             mEndMicrosecondsOrUnits (heap s p),
                                           mServoMoves := False\<rparr>),
                     trace := trace ?s1 @
                        [Pulse p (if mOperateServoReverse (heap s p)
                                  then mServo180DegreeMicrosecondsOrUnits (heap s p)
                                         - ((mEndMicrosecondsOrUnits (heap s p)
                                              + mTrimMicrosecondsOrUnits (heap s p))
                                            - mServo0DegreeMicrosecondsOrUnits (heap s p))
                                  else mEndMicrosecondsOrUnits (heap s p)
                                         + mTrimMicrosecondsOrUnits (heap s p))]\<rparr>"
  have s2: "this_update p (\<lambda>sv. sv\<lparr>mServoMoves := False\<rparr>)
              (writeMicrosecondsOrUnits cfg p (mEndMicrosecondsOrUnits (heap ?s1 p)) ?s1) = ?s2"
    unfolding w by (simp add: this_update_def)
  have h: "TargetPositionReachedHandler (heap ?s2 p) = TargetPositionReachedHandler (heap s p)"
    using fs(5) by simp
  have upd: "update cfg hs ef p ?s1 =
      (\<not> mServoMoves (heap (callTargetPositionReachedHandler hs p ?s2) p),
       callTargetPositionReachedHandler hs p ?s2)"
    unfolding update_at_end [OF m e] s2 Let_def ..
  have none: "TargetPositionReachedHandler (heap s p) = None \<Longrightarrow>
      callTargetPositionReachedHandler hs p ?s2 = ?s2"
    using h unfolding callTargetPositionReachedHandler_def by simp
  have "TargetPositionReachedHandler (heap s p) = None \<Longrightarrow> update cfg hs ef p ?s1 = (True, ?s2)"
    unfolding upd none by simp
  with upd show ?thesis
    unfolding Let_def by blast
qed

theorem update_at_end_of_move_witness:
  "mServoMoves (heap (one_servo moving_servo) 0)
   \<and> mServoIndex (heap (one_servo moving_servo) 0) \<noteq> INVALID_SERVO default_config
   \<and> unat (20 - mMillisAtStartMove (heap (one_servo moving_servo) 0))
         < mMillisForCompleteMove (heap (one_servo moving_servo) 0)
   \<and> unat (500 - mMillisAtStartMove (heap (one_servo moving_servo) 0))
         < mMillisForCompleteMove (heap (one_servo moving_servo) 0)
   \<and> mMillisForCompleteMove (heap (one_servo moving_servo) 0)
        \<le> unat (1000 - mMillisAtStartMove (heap (one_servo moving_servo) 0))
   \<and> fst (update default_config speed_handler no_easing 0
            ((ticks default_config speed_handler no_easing 0 [20, 500] (one_servo moving_servo))
               \<lparr>millis := 1000\<rparr>))
   \<and> mCurrentMicrosecondsOrUnits
        (heap (snd (update default_config speed_handler no_easing 0
            ((ticks default_config speed_handler no_easing 0 [20, 500] (one_servo moving_servo))
               \<lparr>millis := 1000\<rparr>))) 0) = 2400"
proof -
  have h: "mServoMoves (heap (one_servo moving_servo) 0)"
    "mServoIndex (heap (one_servo moving_servo) 0) \<noteq> INVALID_SERVO default_config"
    "\<forall>t' \<in> set [20, 500].
         unat (t' - mMillisAtStartMove (heap (one_servo moving_servo) 0))
           < mMillisForCompleteMove (heap (one_servo moving_servo) 0)"
    "mMillisForCompleteMove (heap (one_servo moving_servo) 0)
        \<le> unat (1000 - mMillisAtStartMove (heap (one_servo moving_servo) 0))"
    by (simp_all add: one_servo_def empty_store_def moving_servo_def servo_at_rest_def
        default_config_def)
  have f: "forget_current
             (heap (ticks default_config speed_handler no_easing 0 [20, 500] (one_servo moving_servo)) 0)
           = forget_current (heap (one_servo moving_servo) 0)"
    using ticks_before_end [OF h(3), of default_config speed_handler no_easing] by simp
  show ?thesis
    using h update_at_end_of_move [OF h, of speed_handler no_easing] forget_current_fields(5) [OF f]
    by (simp add: Let_def callTargetPositionReachedHandler_def speed_handler_def setSpeed_def
        this_update_def one_servo_def empty_store_def moving_servo_def servo_at_rest_def)
qed

subsection \<open>Degrees to microseconds and back\<close>

text \<open>
  Claim C3 does not hold of the code. With the calibration pair 1000 and 1500
  microseconds, 0 degree converts to 1000 microseconds and back to 1 degree, and 180
  degree converts to 1500 microseconds and back to 181 degree.
  \<^verbatim>\<open>MicrosecondsOrUnitsToDegree\<close> is to compute the map with rounding and adds for that,
  in the words of its comment, the value for half a degree before scaling. The value
  it adds is 928, half of the range 1856 of the default calibration, whatever the
  calibration of the object: with a range of 500 half a degree before scaling is 250.
\<close>

theorem roundtrip_narrow_calibration:
  "mServo0DegreeMicrosecondsOrUnits narrow_servo < mServo180DegreeMicrosecondsOrUnits narrow_servo
   \<and> DegreeToMicrosecondsOrUnits default_config narrow_servo 0 = 1000
   \<and> MicrosecondsOrUnitsToDegree narrow_servo 1000 = Some 1
   \<and> MicrosecondsOrUnitsToDegree narrow_servo
        (DegreeToMicrosecondsOrUnits default_config narrow_servo 0) = Some 1
   \<and> DegreeToMicrosecondsOrUnits default_config narrow_servo 180 = 1500
   \<and> MicrosecondsOrUnitsToDegree narrow_servo 1500 = Some 181
   \<and> MicrosecondsOrUnitsToDegree narrow_servo
        (DegreeToMicrosecondsOrUnits default_config narrow_servo 180) = Some 181"
  by (simp add: MicrosecondsOrUnitsToDegree_def DegreeToMicrosecondsOrUnits_def map_long_def
      default_config_def narrow_servo_def servo_at_rest_def signed_divide_int_def)

text \<open>
  The constant is below one degree before scaling when the calibration range exceeds
  928, as the default range does: there the two conversions give back every degree
  from 0 to 180.
\<close>

lemma roundtrip_wide_calibration:
  assumes "928 < mServo180DegreeMicrosecondsOrUnits sv - mServo0DegreeMicrosecondsOrUnits sv"
    and "0 \<le> d" and "d \<le> 180"
    and "180 < THRESHOLD_VALUE_FOR_INTERPRETING_VALUE_AS_MICROSECONDS cfg"
  shows "MicrosecondsOrUnitsToDegree sv (DegreeToMicrosecondsOrUnits cfg sv d) = Some d"
proof -
  let ?R = "mServo180DegreeMicrosecondsOrUnits sv - mServo0DegreeMicrosecondsOrUnits sv"
  have R: "0 < ?R" using assms(1) by linarith
  have nn: "0 \<le> d * ?R" using assms(2) R by simp
  have m: "DegreeToMicrosecondsOrUnits cfg sv d
             = (d * ?R) div 180 + mServo0DegreeMicrosecondsOrUnits sv"
    using assms nn by (simp add: DegreeToMicrosecondsOrUnits_def map_long_def sdiv_nonneg)
  have nn2: "0 \<le> ((d * ?R) div 180) * 180 + 928"
    using nn by (simp add: pos_imp_zdiv_nonneg_iff)
  show ?thesis
    using R nn2 roundtrip_aux [OF assms(1) assms(2)]
    by (simp add: m MicrosecondsOrUnitsToDegree_def Let_def sdiv_nonneg)
qed

subsection \<open>The handler of a reached target\<close>

text \<open>
  Claim C4. For a moving object with a registered handler \<open>h\<close>, ticks at the times
  \<open>ts\<close>, all before the end of the move, and then a tick at a time \<open>t\<close> with an
  elapsed time of at least \<open>mMillisForCompleteMove\<close>, where the handlers \<open>hs\<close> are
  any user code:

  \<^item> the ticks \<open>ts\<close> do not call the handler: they change nothing but the clock, the
    current position of the object and the trace, to which they add only pulses of
    the object;

  \<^item> the tick at \<open>t\<close> calls it once: the state after this tick is the handler \<open>h\<close>
    applied once to the state in which \<^verbatim>\<open>update\<close> has written the end position,
    cleared the moving flag and recorded the call;

  \<^item> no tick after \<open>t\<close> calls it: when the handler leaves the moving flag of the
    object as it finds it, ticks at any later times \<open>ts'\<close> change nothing but the
    clock, and when the handler records no call of its own either, the trace holds
    after all these ticks one call for the object more than before the move.
\<close>

theorem handler_exactly_once:
  assumes "mServoMoves (heap s p)"
    and "TargetPositionReachedHandler (heap s p) = Some h"
    and "\<forall>t' \<in> set ts. unat (t' - mMillisAtStartMove (heap s p)) < mMillisForCompleteMove (heap s p)"
    and "mMillisForCompleteMove (heap s p) \<le> unat (t - mMillisAtStartMove (heap s p))"
  shows "(ticks cfg hs ef p ts s)\<lparr>heap := heap s, trace := trace s, millis := millis s\<rparr> = s
       \<and> (\<forall>q. q \<noteq> p \<longrightarrow> heap (ticks cfg hs ef p ts s) q = heap s q)
       \<and> forget_current (heap (ticks cfg hs ef p ts s) p) = forget_current (heap s p)
       \<and> (\<exists>evs. trace (ticks cfg hs ef p ts s) = trace s @ evs \<and> pulses_of p evs)
       \<and> ticks cfg hs ef p (ts @ [t]) s =
           hs h p
             (let s1 = writeMicrosecondsOrUnits cfg p (mEndMicrosecondsOrUnits (heap s p))
                         ((ticks cfg hs ef p ts s)\<lparr>millis := t\<rparr>);
                  s2 = this_update p (\<lambda>sv. sv\<lparr>mServoMoves := False\<rparr>) s1
              in s2\<lparr>trace := trace s2 @ [Reached h p]\<rparr>)
       \<and> ((\<forall>s'. mServoMoves (heap (hs h p s') p) = mServoMoves (heap s' p)) \<longrightarrow>
            (ticks cfg hs ef p (ts @ [t] @ ts') s)
               \<lparr>millis := millis (ticks cfg hs ef p (ts @ [t]) s)\<rparr>
              = ticks cfg hs ef p (ts @ [t]) s)
       \<and> ((\<forall>s'. mServoMoves (heap (hs h p s') p) = mServoMoves (heap s' p)
                \<and> reached_calls p (hs h p s') = reached_calls p s') \<longrightarrow>
            reached_calls p (ticks cfg hs ef p (ts @ [t] @ ts') s) = reached_calls p s + 1)"
proof -
  let ?s1 = "ticks cfg hs ef p ts s"
  let ?s0 = "?s1\<lparr>millis := t\<rparr>"
  note fr = ticks_before_end_frame [OF assms(3), of cfg hs ef]
  have b: "forget_current (heap ?s1 p) = forget_current (heap s p)"
    "reached_calls p ?s1 = reached_calls p s"
    using ticks_before_end [OF assms(3), of cfg hs ef] by simp_all
  note fs = forget_current_fields [OF b(1)]
  let ?s2 = "this_update p (\<lambda>sv. sv\<lparr>mServoMoves := False\<rparr>)
               (writeMicrosecondsOrUnits cfg p (mEndMicrosecondsOrUnits (heap s p)) ?s0)"
  let ?s3 = "?s2\<lparr>trace := trace ?s2 @ [Reached h p]\<rparr>"
  let ?e = "ticks cfg hs ef p (ts @ [t]) s"
  have "snd (update cfg hs ef p ?s0) =
     hs h p
       (let s1 = writeMicrosecondsOrUnits cfg p (mEndMicrosecondsOrUnits (heap ?s0 p)) ?s0;
            s2 = this_update p (\<lambda>sv. sv\<lparr>mServoMoves := False\<rparr>) s1
        in s2\<lparr>trace := trace s2 @ [Reached h p]\<rparr>)"
    using assms(1,2,4) fs(1,2,3,5) by (intro end_tick) simp_all
  then have e: "?e = hs h p ?s3"
    using fs(4) by (simp add: ticks_append Let_def)
  have r3: "reached_calls p ?s3 = reached_calls p s + 1"
    using b(2) writeMicrosecondsOrUnits_reached [of p cfg p "mEndMicrosecondsOrUnits (heap s p)" ?s0]
    by (simp add: reached_calls_def this_update_def)
  have m3: "\<not> mServoMoves (heap ?s3 p)"
    by (simp add: this_update_def)
  have later: "(ticks cfg hs ef p (ts @ [t] @ ts') s)\<lparr>millis := millis ?e\<rparr> = ?e"
    if "\<forall>s'. mServoMoves (heap (hs h p s') p) = mServoMoves (heap s' p)"
  proof -
    have "\<not> mServoMoves (heap ?e p)"
      unfolding e using that m3 by simp
    from ticks_not_moving_frame [OF this, of cfg hs ef ts']
    show ?thesis
      using ticks_append [of cfg hs ef p "ts @ [t]" ts' s] by simp
  qed
  have count: "reached_calls p (ticks cfg hs ef p (ts @ [t] @ ts') s) = reached_calls p s + 1"
    if q: "\<forall>s'. mServoMoves (heap (hs h p s') p) = mServoMoves (heap s' p)
                \<and> reached_calls p (hs h p s') = reached_calls p s'"
  proof -
    have "(ticks cfg hs ef p (ts @ [t] @ ts') s)\<lparr>millis := millis ?e\<rparr> = ?e"
      using later q by blast
    then have "trace ((ticks cfg hs ef p (ts @ [t] @ ts') s)\<lparr>millis := millis ?e\<rparr>) = trace ?e"
      by (rule arg_cong)
    then have "trace (ticks cfg hs ef p (ts @ [t] @ ts') s) = trace ?e"
      by simp
    then have "reached_calls p (ticks cfg hs ef p (ts @ [t] @ ts') s) = reached_calls p ?e"
      by (simp add: reached_calls_def)
    also have "\<dots> = reached_calls p ?s3" unfolding e using q by simp
    finally show ?thesis using r3 by simp
  qed
  have five: "?e = hs h p
             (let s1 = writeMicrosecondsOrUnits cfg p (mEndMicrosecondsOrUnits (heap s p)) ?s0;
                  s2 = this_update p (\<lambda>sv. sv\<lparr>mServoMoves := False\<rparr>) s1
              in s2\<lparr>trace := trace s2 @ [Reached h p]\<rparr>)"
    using e by (simp add: Let_def)
  from fr b(1) five later count show ?thesis
    by (intro conjI impI) blast+
qed

theorem handler_exactly_once_witness:
  "mServoMoves (heap (one_servo moving_servo) 0)
   \<and> TargetPositionReachedHandler (heap (one_servo moving_servo) 0) = Some 0
   \<and> unat (20 - mMillisAtStartMove (heap (one_servo moving_servo) 0))
         < mMillisForCompleteMove (heap (one_servo moving_servo) 0)
   \<and> unat (500 - mMillisAtStartMove (heap (one_servo moving_servo) 0))
         < mMillisForCompleteMove (heap (one_servo moving_servo) 0)
   \<and> mMillisForCompleteMove (heap (one_servo moving_servo) 0)
        \<le> unat (1010 - mMillisAtStartMove (heap (one_servo moving_servo) 0))
   \<and> (\<forall>s'. mServoMoves (heap (speed_handler 0 0 s') 0) = mServoMoves (heap s' 0)
          \<and> reached_calls 0 (speed_handler 0 0 s') = reached_calls 0 s')
   \<and> mSpeed (heap (ticks default_config speed_handler no_easing 0 [20, 500]
                      (one_servo moving_servo)) 0) = 90
   \<and> mSpeed (heap (ticks default_config speed_handler no_easing 0 ([20, 500] @ [1010])
                      (one_servo moving_servo)) 0) = 45
   \<and> \<not> mServoMoves (heap (ticks default_config speed_handler no_easing 0 ([20, 500] @ [1010])
                      (one_servo moving_servo)) 0)
   \<and> mCurrentMicrosecondsOrUnits
        (heap (ticks default_config speed_handler no_easing 0 ([20, 500] @ [1010])
                      (one_servo moving_servo)) 0) = 2400
   \<and> reached_calls 0 (ticks default_config speed_handler no_easing 0
        ([20, 500] @ [1010] @ [1020, 1040]) (one_servo moving_servo)) = 1"
proof -
  let ?st = "one_servo moving_servo"
  have h: "mServoMoves (heap ?st 0)"
    "TargetPositionReachedHandler (heap ?st 0) = Some 0"
    by (simp_all add: one_servo_def empty_store_def moving_servo_def servo_at_rest_def)
  have e: "\<forall>t' \<in> set [20, 500].
             unat (t' - mMillisAtStartMove (heap ?st 0)) < mMillisForCompleteMove (heap ?st 0)"
    "mMillisForCompleteMove (heap ?st 0) \<le> unat (1010 - mMillisAtStartMove (heap ?st 0))"
    by (simp_all add: one_servo_def empty_store_def moving_servo_def servo_at_rest_def)
  have q: "\<forall>s'. mServoMoves (heap (speed_handler 0 0 s') 0) = mServoMoves (heap s' 0)
          \<and> reached_calls 0 (speed_handler 0 0 s') = reached_calls 0 s'"
    by (simp add: speed_handler_def setSpeed_def this_update_def reached_calls_def)
  have v: "reached_calls 0 ?st = 0" "mSpeed (heap ?st 0) = 90"
    "mEndMicrosecondsOrUnits (heap ?st 0) = 2400"
    "mServoIndex (heap ?st 0) \<noteq> INVALID_SERVO default_config"
    by (simp_all add: reached_calls_def one_servo_def empty_store_def moving_servo_def
        servo_at_rest_def default_config_def)
  note t = handler_exactly_once [where hs = speed_handler and cfg = default_config
        and ef = no_easing and ts = "[20, 500]" and t = 1010 and ts' = "[1020, 1040]",
        OF h e]
  let ?s1 = "ticks default_config speed_handler no_easing 0 [20, 500] ?st"
  have f: "forget_current (heap ?s1 0) = forget_current (heap ?st 0)"
    using t by blast
  have sp: "mSpeed (heap ?s1 0) = 90"
    using arg_cong [OF f, of mSpeed] v(2) by (simp add: forget_current_def)
  have ix: "mServoIndex (heap ?s1 0) \<noteq> INVALID_SERVO default_config"
    using forget_current_fields(6) [OF f] v(4) by simp
  have en: "ticks default_config speed_handler no_easing 0 ([20, 500] @ [1010]) ?st =
           speed_handler 0 0
             (let s1 = writeMicrosecondsOrUnits default_config 0
                         (mEndMicrosecondsOrUnits (heap ?st 0)) (?s1\<lparr>millis := 1010\<rparr>);
                  s2 = this_update 0 (\<lambda>sv. sv\<lparr>mServoMoves := False\<rparr>) s1
              in s2\<lparr>trace := trace s2 @ [Reached 0 0]\<rparr>)"
    using t by blast
  have after: "mSpeed (heap (ticks default_config speed_handler no_easing 0 ([20, 500] @ [1010]) ?st) 0) = 45"
    "\<not> mServoMoves (heap (ticks default_config speed_handler no_easing 0 ([20, 500] @ [1010]) ?st) 0)"
    "mCurrentMicrosecondsOrUnits
        (heap (ticks default_config speed_handler no_easing 0 ([20, 500] @ [1010]) ?st) 0) = 2400"
    unfolding en using ix
    by (simp_all add: Let_def speed_handler_def setSpeed_def this_update_def uint_fast16_def
        writeMicrosecondsOrUnits_def v(3) default_config_def)
  have cnt: "reached_calls 0 (ticks default_config speed_handler no_easing 0
        ([20, 500] @ [1010] @ [1020, 1040]) ?st) = 1"
    using t [THEN conjunct2, THEN conjunct2, THEN conjunct2, THEN conjunct2, THEN conjunct2,
        THEN conjunct2, THEN mp, OF q] v(1) by (simp only:)
  have e': "unat (20 - mMillisAtStartMove (heap ?st 0)) < mMillisForCompleteMove (heap ?st 0)"
    "unat (500 - mMillisAtStartMove (heap ?st 0)) < mMillisForCompleteMove (heap ?st 0)"
    using e(1) by simp_all
  show ?thesis
    using h e' e(2) q sp after cnt by (intro conjI) assumption+
qed

subsection \<open>Detached servos\<close>

text \<open>
  Claim C5, as stated, fails: on a detached object the public operation
  \<^verbatim>\<open>continueWithoutInterrupts\<close> sets the moving flag, and the value that
  \<^verbatim>\<open>startEaseToD\<close> returns for it is the one it returns for an attached object at rest
  whose move it starts.
\<close>

theorem detached_counterexample:
  "mServoIndex (heap empty_store 0) = INVALID_SERVO default_config
   \<and> \<not> mServoMoves (heap empty_store 0)
   \<and> mServoMoves (heap (continueWithoutInterrupts 0 empty_store) 0)
   \<and> fst (startEaseToD default_config 0 90 1000 False empty_store) = True
   \<and> fst (startEaseToD default_config 0 90 1000 False (one_servo servo_at_rest)) = True"
  by (simp add: continueWithoutInterrupts_def this_update_def startEaseToD_def Let_def
      empty_store_def one_servo_def detached_servo_def servo_at_rest_def default_config_def)

text \<open>
  Claim C5, amended. For an object whose \<open>mServoIndex\<close> is \<open>INVALID_SERVO\<close>, the
  guarded operations \<^verbatim>\<open>write\<close>, \<^verbatim>\<open>writeMicrosecondsOrUnits\<close> and \<^verbatim>\<open>startEaseToD\<close>
  leave the whole state unchanged and return; \<^verbatim>\<open>startEaseToD\<close> returns true.
\<close>

theorem detached_is_noop:
  assumes "mServoIndex (heap s p) = INVALID_SERVO cfg"
  shows "write cfg p v s = s
       \<and> writeMicrosecondsOrUnits cfg p u s = s
       \<and> startEaseToD cfg p a D b s = (True, s)"
  using assms by (simp add: write_def writeMicrosecondsOrUnits_def startEaseToD_def)

theorem detached_is_noop_witness:
  "mServoIndex (heap empty_store 0) = INVALID_SERVO default_config
   \<and> write default_config 0 90 empty_store = empty_store
   \<and> writeMicrosecondsOrUnits default_config 0 1500 empty_store = empty_store
   \<and> startEaseToD default_config 0 90 1000 True empty_store = (True, empty_store)"
proof -
  have h: "mServoIndex (heap empty_store 0) = INVALID_SERVO default_config"
    by (simp add: empty_store_def detached_servo_def servo_at_rest_def default_config_def)
  show ?thesis
    using h detached_is_noop [OF h, of 90 1500 90 1000 True] by simp
qed

subsection \<open>The bouncing call style\<close>

text \<open>
  Claim C6, as stated, fails where \<^verbatim>\<open>uint_fast16_t\<close> has 16 bits: for a move from 0
  to 180 degree at 3 degree per second \<^verbatim>\<open>startEaseTo\<close> plans 60000 milliseconds with
  the linear easing, and with the bouncing call style not twice as many but 54464
  milliseconds, since 120000 does not fit into 16 bits.
\<close>

theorem bounce_counterexample:
  "mEasingType (heap bouncing 0) AND CALL_STYLE_MASK default_config
     = CALL_STYLE_BOUNCING_OUT_IN default_config
   \<and> heap bouncing 0 = (heap at_zero_degree 0)\<lparr>mEasingType := 193\<rparr>
   \<and> startEaseTo default_config 0 180 3 False at_zero_degree \<noteq> None
   \<and> mMillisForCompleteMove
        (heap (snd (the (startEaseTo default_config 0 180 3 False at_zero_degree))) 0) = 60000
   \<and> startEaseTo default_config 0 180 3 False bouncing \<noteq> None
   \<and> mMillisForCompleteMove
        (heap (snd (the (startEaseTo default_config 0 180 3 False bouncing))) 0) = 54464"
  by (simp add: startEaseTo_def startEaseToD_def Let_def this_update_def uint_fast16_def
      MicrosecondsOrUnitsToDegree_def DegreeToMicrosecondsOrUnits_def map_long_def
      bouncing_def at_zero_degree_def one_servo_def empty_store_def servo_at_rest_def
      default_config_def signed_divide_int_def take_bit_eq_mod)

text \<open>
  Claim C6, amended. For an attached object whose easing type has the bouncing call
  style, \<^verbatim>\<open>startEaseToD\<close> sets \<open>mEndMicrosecondsOrUnits\<close> to the position the move
  starts from and stores the duration it is given, reduced to the width of
  \<^verbatim>\<open>uint_fast16_t\<close> and not doubled. \<^verbatim>\<open>startEaseTo\<close>, for a calibration range other
  than zero, returns with the same end position and stores twice the duration \<open>m\<close>
  it derives from speed and distance, reduced to the width of \<^verbatim>\<open>uint_fast16_t\<close>:
  that is \<open>2 * m\<close> itself when \<open>2 * m\<close> fits into this width.
\<close>

theorem bounce_end_and_duration:
  assumes "mServoIndex (heap s p) \<noteq> INVALID_SERVO cfg"
    and "mEasingType (heap s p) AND CALL_STYLE_MASK cfg = CALL_STYLE_BOUNCING_OUT_IN cfg"
    and "mServo180DegreeMicrosecondsOrUnits (heap s p) \<noteq> mServo0DegreeMicrosecondsOrUnits (heap s p)"
  shows "mEndMicrosecondsOrUnits (heap (snd (startEaseToD cfg p a D b s)) p)
           = mCurrentMicrosecondsOrUnits (heap s p)
       \<and> mStartMicrosecondsOrUnits (heap (snd (startEaseToD cfg p a D b s)) p)
           = mCurrentMicrosecondsOrUnits (heap s p)
       \<and> mMillisForCompleteMove (heap (snd (startEaseToD cfg p a D b s)) p)
           = take_bit (UINT_FAST16_BITS cfg) D
       \<and> (\<exists>t c m r s'.
             (if THRESHOLD_VALUE_FOR_INTERPRETING_VALUE_AS_MICROSECONDS cfg \<le> a
              then MicrosecondsToDegree (heap s p) a else Some a) = Some t
           \<and> MicrosecondsOrUnitsToDegree (heap s p) (mCurrentMicrosecondsOrUnits (heap s p)) = Some c
           \<and> m = nat (take_bit (UINT_FAST16_BITS cfg)
                        ((\<bar>t - c\<bar> * MILLIS_IN_ONE_SECOND cfg)
                           sdiv int (if take_bit (UINT_FAST16_BITS cfg) v = 0 then 1
                                     else take_bit (UINT_FAST16_BITS cfg) v)))
           \<and> startEaseTo cfg p a v b s = Some (r, s')
           \<and> mEndMicrosecondsOrUnits (heap s' p) = mCurrentMicrosecondsOrUnits (heap s p)
           \<and> mStartMicrosecondsOrUnits (heap s' p) = mCurrentMicrosecondsOrUnits (heap s p)
           \<and> mMillisForCompleteMove (heap s' p) = take_bit (UINT_FAST16_BITS cfg) (2 * m)
           \<and> (2 * m < 2 ^ UINT_FAST16_BITS cfg \<longrightarrow> mMillisForCompleteMove (heap s' p) = 2 * m))"
proof -
  note d = startEaseToD_attached [OF assms(1)]
  obtain t c where tc:
    "(if THRESHOLD_VALUE_FOR_INTERPRETING_VALUE_AS_MICROSECONDS cfg \<le> a
      then MicrosecondsToDegree (heap s p) a else Some a) = Some t"
    "MicrosecondsOrUnitsToDegree (heap s p) (mCurrentMicrosecondsOrUnits (heap s p)) = Some c"
    "startEaseTo cfg p a v b s =
       Some (startEaseToD cfg p a
         (if mEasingType (heap s p) AND CALL_STYLE_MASK cfg = CALL_STYLE_BOUNCING_OUT_IN cfg
          then take_bit (UINT_FAST16_BITS cfg)
            (2 * nat (take_bit (UINT_FAST16_BITS cfg)
                        ((\<bar>t - c\<bar> * MILLIS_IN_ONE_SECOND cfg)
                           sdiv int (if take_bit (UINT_FAST16_BITS cfg) v = 0 then 1
                                     else take_bit (UINT_FAST16_BITS cfg) v))))
          else nat (take_bit (UINT_FAST16_BITS cfg)
                        ((\<bar>t - c\<bar> * MILLIS_IN_ONE_SECOND cfg)
                           sdiv int (if take_bit (UINT_FAST16_BITS cfg) v = 0 then 1
                                     else take_bit (UINT_FAST16_BITS cfg) v)))) b s)"
    using startEaseTo_Some [where cfg = cfg and a = a and v = v and b = b, OF assms(3)]
    by blast
  define m where "m = nat (take_bit (UINT_FAST16_BITS cfg)
                        ((\<bar>t - c\<bar> * MILLIS_IN_ONE_SECOND cfg)
                           sdiv int (if take_bit (UINT_FAST16_BITS cfg) v = 0 then 1
                                     else take_bit (UINT_FAST16_BITS cfg) v)))"
  let ?D2 = "take_bit (UINT_FAST16_BITS cfg) (2 * m)"
  let ?s' = "snd (startEaseToD cfg p a ?D2 b s)"
  have e: "startEaseTo cfg p a v b s = Some (fst (startEaseToD cfg p a ?D2 b s), ?s')"
    unfolding tc(3) m_def using assms(2) by simp
  have f1: "mEndMicrosecondsOrUnits (heap ?s' p) = mCurrentMicrosecondsOrUnits (heap s p)"
    using assms(2) by (simp add: d)
  have f2: "mStartMicrosecondsOrUnits (heap ?s' p) = mCurrentMicrosecondsOrUnits (heap s p)"
    by (simp add: d)
  have f3: "mMillisForCompleteMove (heap ?s' p) = ?D2"
    by (simp add: d uint_fast16_reduced)
  have g: "2 * m < 2 ^ UINT_FAST16_BITS cfg \<longrightarrow> mMillisForCompleteMove (heap ?s' p) = 2 * m"
    unfolding f3 by (simp add: take_bit_nat_eq_self)
  have second: "\<exists>t c m r s'.
             (if THRESHOLD_VALUE_FOR_INTERPRETING_VALUE_AS_MICROSECONDS cfg \<le> a
              then MicrosecondsToDegree (heap s p) a else Some a) = Some t
           \<and> MicrosecondsOrUnitsToDegree (heap s p) (mCurrentMicrosecondsOrUnits (heap s p)) = Some c
           \<and> m = nat (take_bit (UINT_FAST16_BITS cfg)
                        ((\<bar>t - c\<bar> * MILLIS_IN_ONE_SECOND cfg)
                           sdiv int (if take_bit (UINT_FAST16_BITS cfg) v = 0 then 1
                                     else take_bit (UINT_FAST16_BITS cfg) v)))
           \<and> startEaseTo cfg p a v b s = Some (r, s')
           \<and> mEndMicrosecondsOrUnits (heap s' p) = mCurrentMicrosecondsOrUnits (heap s p)
           \<and> mStartMicrosecondsOrUnits (heap s' p) = mCurrentMicrosecondsOrUnits (heap s p)
           \<and> mMillisForCompleteMove (heap s' p) = take_bit (UINT_FAST16_BITS cfg) (2 * m)
           \<and> (2 * m < 2 ^ UINT_FAST16_BITS cfg \<longrightarrow> mMillisForCompleteMove (heap s' p) = 2 * m)"
    apply (rule exI [of _ t])
    apply (rule exI [of _ c])
    apply (rule exI [of _ m])
    apply (rule exI [of _ "fst (startEaseToD cfg p a ?D2 b s)"])
    apply (rule exI [of _ ?s'])
    using tc(1,2) m_def e f1 f2 f3 g apply (intro conjI)
           apply assumption+
    done
  have first: "mEndMicrosecondsOrUnits (heap (snd (startEaseToD cfg p a D b s)) p)
           = mCurrentMicrosecondsOrUnits (heap s p)
       \<and> mStartMicrosecondsOrUnits (heap (snd (startEaseToD cfg p a D b s)) p)
           = mCurrentMicrosecondsOrUnits (heap s p)
       \<and> mMillisForCompleteMove (heap (snd (startEaseToD cfg p a D b s)) p)
           = take_bit (UINT_FAST16_BITS cfg) D"
    using assms(2) by (simp add: d uint_fast16_def)
  from first second show ?thesis by (simp only: conj_assoc)
qed

theorem bounce_end_and_duration_witness:
  "mServoIndex (heap bouncing 0) \<noteq> INVALID_SERVO default_config
   \<and> mEasingType (heap bouncing 0) AND CALL_STYLE_MASK default_config
        = CALL_STYLE_BOUNCING_OUT_IN default_config
   \<and> mServo180DegreeMicrosecondsOrUnits (heap bouncing 0)
        \<noteq> mServo0DegreeMicrosecondsOrUnits (heap bouncing 0)
   \<and> mEndMicrosecondsOrUnits (heap (snd (startEaseToD default_config 0 90 1500 False bouncing)) 0) = 544
   \<and> mMillisForCompleteMove (heap (snd (startEaseToD default_config 0 90 1500 False bouncing)) 0) = 1500
   \<and> mMillisForCompleteMove (heap (snd (startEaseToD default_config 0 90 70000 False bouncing)) 0) = 4464
   \<and> (\<exists>r s'. startEaseTo default_config 0 90 60 False bouncing = Some (r, s')
         \<and> mEndMicrosecondsOrUnits (heap s' 0) = 544
         \<and> mMillisForCompleteMove (heap s' 0) = 3000)"
proof -
  have h: "mServoIndex (heap bouncing 0) \<noteq> INVALID_SERVO default_config"
    "mEasingType (heap bouncing 0) AND CALL_STYLE_MASK default_config
        = CALL_STYLE_BOUNCING_OUT_IN default_config"
    "mServo180DegreeMicrosecondsOrUnits (heap bouncing 0)
        \<noteq> mServo0DegreeMicrosecondsOrUnits (heap bouncing 0)"
    by (simp_all add: bouncing_def one_servo_def empty_store_def servo_at_rest_def
        default_config_def)
  have c: "mCurrentMicrosecondsOrUnits (heap bouncing 0) = 544"
    "MicrosecondsOrUnitsToDegree (heap bouncing 0) 544 = Some 0"
    "THRESHOLD_VALUE_FOR_INTERPRETING_VALUE_AS_MICROSECONDS default_config = 400"
    "MILLIS_IN_ONE_SECOND default_config = 1000"
    "UINT_FAST16_BITS default_config = 16"
    by (simp_all add: bouncing_def one_servo_def empty_store_def servo_at_rest_def
        default_config_def MicrosecondsOrUnitsToDegree_def signed_divide_int_def)
  have d: "take_bit 16 (60::nat) = 60" "take_bit 16 (1500::nat) = 1500"
    "take_bit 16 (70000::nat) = 4464"
    "nat (take_bit 16 ((\<bar>90 - 0\<bar> * 1000) sdiv int 60)) = 1500"
    "take_bit 16 (2 * (1500::nat)) = 3000"
    by (simp_all add: signed_divide_int_def take_bit_eq_mod)
  show ?thesis
    using h bounce_end_and_duration [OF h, of 90 1500 False 60]
      bounce_end_and_duration [OF h, of 90 70000 False 60]
    by (auto simp: c d)
qed

subsection \<open>Trim and reverse\<close>

text \<open>
  Claim C7. \<^verbatim>\<open>writeMicrosecondsOrUnits\<close> on an attached object hands to the servo the
  value plus the trim, mirrored as \<open>high - ((value + trim) - low)\<close> when the object
  operates in reverse, and stores the value itself as the current position; nothing
  else changes. The pulse for the microseconds of a degree is the value that
  \<^verbatim>\<open>DegreeToMicrosecondsOrUnitsWithTrimAndReverse\<close> computes.
\<close>

theorem writeMicrosecondsOrUnits_trim_reverse:
  assumes "mServoIndex (heap s p) \<noteq> INVALID_SERVO cfg"
  shows "writeMicrosecondsOrUnits cfg p u s =
           s\<lparr>heap := (heap s)(p := (heap s p)\<lparr>mCurrentMicrosecondsOrUnits := u\<rparr>),
             trace := trace s @
               [Pulse p (if mOperateServoReverse (heap s p)
                         then mServo180DegreeMicrosecondsOrUnits (heap s p)
                                - ((u + mTrimMicrosecondsOrUnits (heap s p))
                                     - mServo0DegreeMicrosecondsOrUnits (heap s p))
                         else u + mTrimMicrosecondsOrUnits (heap s p))]\<rparr>
         \<and> mCurrentMicrosecondsOrUnits (heap (writeMicrosecondsOrUnits cfg p u s) p) = u
         \<and> last (trace (writeMicrosecondsOrUnits cfg p
              (map_long d 0 180 (mServo0DegreeMicrosecondsOrUnits (heap s p))
                 (mServo180DegreeMicrosecondsOrUnits (heap s p))) s))
             = Pulse p (DegreeToMicrosecondsOrUnitsWithTrimAndReverse (heap s p) d)"
  using assms
  by (simp add: writeMicrosecondsOrUnits_def this_update_def Let_def
      DegreeToMicrosecondsOrUnitsWithTrimAndReverse_def)

theorem writeMicrosecondsOrUnits_trim_reverse_witness:
  "mServoIndex (heap trimmed_reversed 0) \<noteq> INVALID_SERVO default_config
   \<and> trace (writeMicrosecondsOrUnits default_config 0 1000 trimmed_reversed) = [Pulse 0 1934]
   \<and> mCurrentMicrosecondsOrUnits
        (heap (writeMicrosecondsOrUnits default_config 0 1000 trimmed_reversed) 0) = 1000"
proof -
  have h: "mServoIndex (heap trimmed_reversed 0) \<noteq> INVALID_SERVO default_config"
    by (simp add: trimmed_reversed_def one_servo_def empty_store_def servo_at_rest_def
        default_config_def)
  show ?thesis
    using h writeMicrosecondsOrUnits_trim_reverse [OF h, of 1000 0]
    by (simp add: trimmed_reversed_def one_servo_def empty_store_def servo_at_rest_def)
qed

subsection \<open>A speed of zero\<close>

text \<open>
  Claim C8. \<^verbatim>\<open>startEaseTo\<close> with a speed of 0 does on every state what it does with
  a speed of 1. For an attached object with a calibration range other than zero it
  reports no error and plans the move of speed 1: it returns whether the object was at
  rest, as it does for every speed, and leaves the state of a started move, whose
  duration is the distance in degrees times \<^verbatim>\<open>MILLIS_IN_ONE_SECOND\<close> divided by 1
  (in the width of \<^verbatim>\<open>uint_fast16_t\<close>, and doubled in the bouncing call style), whose
  end is the position the target converts to (the start position in the bouncing call
  style, the former end for the dummy move), which starts at the current position and
  time, with the moving flag set.
\<close>

theorem speed_zero_is_speed_one:
  "startEaseTo cfg p a 0 b s = startEaseTo cfg p a 1 b s
   \<and> (mServoIndex (heap s p) \<noteq> INVALID_SERVO cfg
        \<and> mServo180DegreeMicrosecondsOrUnits (heap s p) \<noteq> mServo0DegreeMicrosecondsOrUnits (heap s p)
      \<longrightarrow> (\<exists>t c m.
             (if THRESHOLD_VALUE_FOR_INTERPRETING_VALUE_AS_MICROSECONDS cfg \<le> a
              then MicrosecondsToDegree (heap s p) a else Some a) = Some t
           \<and> MicrosecondsOrUnitsToDegree (heap s p) (mCurrentMicrosecondsOrUnits (heap s p)) = Some c
           \<and> m = nat (take_bit (UINT_FAST16_BITS cfg)
                        ((\<bar>t - c\<bar> * MILLIS_IN_ONE_SECOND cfg) sdiv 1))
           \<and> startEaseTo cfg p a 0 b s =
               Some (\<not> mServoMoves (heap s p),
                 s\<lparr>heap := (heap s)
                      (p := (heap s p)
                         \<lparr>mEndMicrosecondsOrUnits :=
                            (if mEasingType (heap s p) AND CALL_STYLE_MASK cfg
                                  = CALL_STYLE_BOUNCING_OUT_IN cfg
                             then mCurrentMicrosecondsOrUnits (heap s p)
                             else if mEasingType (heap s p) = EASE_DUMMY_MOVE cfg
                             then mEndMicrosecondsOrUnits (heap s p)
                             else DegreeToMicrosecondsOrUnits cfg (heap s p) a),
                          mDeltaMicrosecondsOrUnits :=
                            (if mEasingType (heap s p) = EASE_DUMMY_MOVE cfg
                             then mEndMicrosecondsOrUnits (heap s p)
                             else DegreeToMicrosecondsOrUnits cfg (heap s p) a)
                            - mCurrentMicrosecondsOrUnits (heap s p),
                          mMillisForCompleteMove :=
                            (if mEasingType (heap s p) AND CALL_STYLE_MASK cfg
                                  = CALL_STYLE_BOUNCING_OUT_IN cfg
                             then take_bit (UINT_FAST16_BITS cfg) (2 * m) else m),
                          mStartMicrosecondsOrUnits := mCurrentMicrosecondsOrUnits (heap s p),
                          mMillisAtStartMove := millis s,
                          mServoMoves := True\<rparr>),
                   ServoEasingNextPositionArray :=
                     (if mEasingType (heap s p) = EASE_DUMMY_MOVE cfg
                      then ServoEasingNextPositionArray s
                      else (ServoEasingNextPositionArray s)[mServoIndex (heap s p) := a]),
                   sInterruptsAreActive := (b \<or> sInterruptsAreActive s)\<rparr>)))"
proof (intro conjI impI)
  have z: "(if uint_fast16 cfg 0 = 0 then 1 else uint_fast16 cfg 0) = 1"
    by (simp add: uint_fast16_def)
  show "startEaseTo cfg p a 0 b s = startEaseTo cfg p a 1 b s"
    by (simp only: startEaseTo_def Let_def z speed_one)
next
  assume h: "mServoIndex (heap s p) \<noteq> INVALID_SERVO cfg
        \<and> mServo180DegreeMicrosecondsOrUnits (heap s p) \<noteq> mServo0DegreeMicrosecondsOrUnits (heap s p)"
  then have att: "mServoIndex (heap s p) \<noteq> INVALID_SERVO cfg" by simp
  obtain t c where tc:
    "(if THRESHOLD_VALUE_FOR_INTERPRETING_VALUE_AS_MICROSECONDS cfg \<le> a
      then MicrosecondsToDegree (heap s p) a else Some a) = Some t"
    "MicrosecondsOrUnitsToDegree (heap s p) (mCurrentMicrosecondsOrUnits (heap s p)) = Some c"
    "startEaseTo cfg p a 0 b s =
       Some (startEaseToD cfg p a
         (if mEasingType (heap s p) AND CALL_STYLE_MASK cfg = CALL_STYLE_BOUNCING_OUT_IN cfg
          then take_bit (UINT_FAST16_BITS cfg)
            (2 * nat (take_bit (UINT_FAST16_BITS cfg)
                        ((\<bar>t - c\<bar> * MILLIS_IN_ONE_SECOND cfg)
                           sdiv int (if take_bit (UINT_FAST16_BITS cfg) (0::nat) = 0 then 1
                                     else take_bit (UINT_FAST16_BITS cfg) 0))))
          else nat (take_bit (UINT_FAST16_BITS cfg)
                        ((\<bar>t - c\<bar> * MILLIS_IN_ONE_SECOND cfg)
                           sdiv int (if take_bit (UINT_FAST16_BITS cfg) (0::nat) = 0 then 1
                                     else take_bit (UINT_FAST16_BITS cfg) 0)))) b s)"
    using h startEaseTo_Some [where cfg = cfg and a = a and v = 0 and b = b and s = s and p = p]
    by blast
  define m where "m = nat (take_bit (UINT_FAST16_BITS cfg)
                        ((\<bar>t - c\<bar> * MILLIS_IN_ONE_SECOND cfg) sdiv 1))"
  let ?D = "if mEasingType (heap s p) AND CALL_STYLE_MASK cfg = CALL_STYLE_BOUNCING_OUT_IN cfg
            then take_bit (UINT_FAST16_BITS cfg) (2 * m) else m"
  have e: "startEaseTo cfg p a 0 b s = Some (startEaseToD cfg p a ?D b s)"
    unfolding tc(3) m_def by simp
  have r: "uint_fast16 cfg ?D = ?D"
    unfolding m_def by (simp add: uint_fast16_reduced)
  show "\<exists>t c m.
             (if THRESHOLD_VALUE_FOR_INTERPRETING_VALUE_AS_MICROSECONDS cfg \<le> a
              then MicrosecondsToDegree (heap s p) a else Some a) = Some t
           \<and> MicrosecondsOrUnitsToDegree (heap s p) (mCurrentMicrosecondsOrUnits (heap s p)) = Some c
           \<and> m = nat (take_bit (UINT_FAST16_BITS cfg)
                        ((\<bar>t - c\<bar> * MILLIS_IN_ONE_SECOND cfg) sdiv 1))
           \<and> startEaseTo cfg p a 0 b s =
               Some (\<not> mServoMoves (heap s p),
                 s\<lparr>heap := (heap s)
                      (p := (heap s p)
                         \<lparr>mEndMicrosecondsOrUnits :=
                            (if mEasingType (heap s p) AND CALL_STYLE_MASK cfg
                                  = CALL_STYLE_BOUNCING_OUT_IN cfg
                             then mCurrentMicrosecondsOrUnits (heap s p)
                             else if mEasingType (heap s p) = EASE_DUMMY_MOVE cfg
                             then mEndMicrosecondsOrUnits (heap s p)
                             else DegreeToMicrosecondsOrUnits cfg (heap s p) a),
                          mDeltaMicrosecondsOrUnits :=
                            (if mEasingType (heap s p) = EASE_DUMMY_MOVE cfg
                             then mEndMicrosecondsOrUnits (heap s p)
                             else DegreeToMicrosecondsOrUnits cfg (heap s p) a)
                            - mCurrentMicrosecondsOrUnits (heap s p),
                          mMillisForCompleteMove :=
                            (if mEasingType (heap s p) AND CALL_STYLE_MASK cfg
                                  = CALL_STYLE_BOUNCING_OUT_IN cfg
                             then take_bit (UINT_FAST16_BITS cfg) (2 * m) else m),
                          mStartMicrosecondsOrUnits := mCurrentMicrosecondsOrUnits (heap s p),
                          mMillisAtStartMove := millis s,
                          mServoMoves := True\<rparr>),
                   ServoEasingNextPositionArray :=
                     (if mEasingType (heap s p) = EASE_DUMMY_MOVE cfg
                      then ServoEasingNextPositionArray s
                      else (ServoEasingNextPositionArray s)[mServoIndex (heap s p) := a]),
                   sInterruptsAreActive := (b \<or> sInterruptsAreActive s)\<rparr>)"
    apply (rule exI [of _ t])
    apply (rule exI [of _ c])
    apply (rule exI [of _ m])
    apply (intro conjI)
       apply (rule tc(1))
      apply (rule tc(2))
     apply (rule m_def)
    unfolding e startEaseToD_attached [OF att] r
    apply (rule refl)
    done
qed

theorem speed_zero_is_speed_one_witness:
  "mServoIndex (heap at_zero_degree 0) \<noteq> INVALID_SERVO default_config
   \<and> mServo180DegreeMicrosecondsOrUnits (heap at_zero_degree 0)
        \<noteq> mServo0DegreeMicrosecondsOrUnits (heap at_zero_degree 0)
   \<and> startEaseTo default_config 0 30 0 False at_zero_degree
        = startEaseTo default_config 0 30 1 False at_zero_degree
   \<and> startEaseTo default_config 0 30 0 False at_zero_degree \<noteq> None
   \<and> fst (the (startEaseTo default_config 0 30 0 False at_zero_degree))
   \<and> mServoMoves (heap (snd (the (startEaseTo default_config 0 30 0 False at_zero_degree))) 0)
   \<and> mMillisForCompleteMove
        (heap (snd (the (startEaseTo default_config 0 30 0 False at_zero_degree))) 0) = 30000
   \<and> mEndMicrosecondsOrUnits
        (heap (snd (the (startEaseTo default_config 0 30 0 False at_zero_degree))) 0) = 853"
proof -
  have h: "mServoIndex (heap at_zero_degree 0) \<noteq> INVALID_SERVO default_config
   \<and> mServo180DegreeMicrosecondsOrUnits (heap at_zero_degree 0)
        \<noteq> mServo0DegreeMicrosecondsOrUnits (heap at_zero_degree 0)"
    by (simp add: at_zero_degree_def one_servo_def empty_store_def servo_at_rest_def
        default_config_def)
  have c: "mCurrentMicrosecondsOrUnits (heap at_zero_degree 0) = 544"
    "MicrosecondsOrUnitsToDegree (heap at_zero_degree 0) 544 = Some 0"
    "THRESHOLD_VALUE_FOR_INTERPRETING_VALUE_AS_MICROSECONDS default_config = 400"
    "MILLIS_IN_ONE_SECOND default_config = 1000"
    "UINT_FAST16_BITS default_config = 16"
    "mEasingType (heap at_zero_degree 0) = 0"
    "CALL_STYLE_MASK default_config = 192"
    "CALL_STYLE_BOUNCING_OUT_IN default_config = 192"
    "EASE_DUMMY_MOVE default_config = 5"
    "\<not> mServoMoves (heap at_zero_degree 0)"
    "DegreeToMicrosecondsOrUnits default_config (heap at_zero_degree 0) 30 = 853"
    by (simp_all add: at_zero_degree_def one_servo_def empty_store_def servo_at_rest_def
        default_config_def MicrosecondsOrUnitsToDegree_def DegreeToMicrosecondsOrUnits_def
        map_long_def signed_divide_int_def)
  have d: "nat (take_bit 16 ((\<bar>30 - 0\<bar> * 1000) sdiv 1)) = (30000::nat)"
    by (simp add: take_bit_eq_mod)
  note t = speed_zero_is_speed_one [of default_config 0 30 False at_zero_degree]
  from t [THEN conjunct2, THEN mp, OF h]
  obtain s' where s': "startEaseTo default_config 0 30 0 False at_zero_degree = Some (True, s')"
    "mServoMoves (heap s' 0)" "mMillisForCompleteMove (heap s' 0) = 30000"
    "mEndMicrosecondsOrUnits (heap s' 0) = 853"
    by (auto simp: c d)
  have r: "startEaseTo default_config 0 30 0 False at_zero_degree \<noteq> None"
    "fst (the (startEaseTo default_config 0 30 0 False at_zero_degree))"
    "mServoMoves (heap (snd (the (startEaseTo default_config 0 30 0 False at_zero_degree))) 0)"
    "mMillisForCompleteMove
        (heap (snd (the (startEaseTo default_config 0 30 0 False at_zero_degree))) 0) = 30000"
    "mEndMicrosecondsOrUnits
        (heap (snd (the (startEaseTo default_config 0 30 0 False at_zero_degree))) 0) = 853"
    using s' by simp_all
  show ?thesis
    using h [THEN conjunct1] h [THEN conjunct2] t [THEN conjunct1] r
    by (intro conjI) assumption+
qed

subsection \<open>Stopping all servos\<close>

text \<open>
  Claim C9. \<^verbatim>\<open>stopAllServos\<close> clears the moving flag of every object in the list and
  changes nothing else; in particular it leaves \<open>sInterruptsAreActive\<close> as it is.
  \<^verbatim>\<open>stop\<close> of one object clears \<open>sInterruptsAreActive\<close> when no object of the list
  moves after it.
\<close>

theorem stopAllServos_frame:
  "stopAllServos s =
     s\<lparr>heap := (\<lambda>q. if registered s q then (heap s q)\<lparr>mServoMoves := False\<rparr> else heap s q)\<rparr>
   \<and> sInterruptsAreActive (stopAllServos s) = sInterruptsAreActive s
   \<and> (\<not> isOneServoMoving (this_update p (\<lambda>sv. sv\<lparr>mServoMoves := False\<rparr>) s)
        \<longrightarrow> \<not> sInterruptsAreActive (stop p s))"
proof -
  have "stopAllServos s =
     s\<lparr>heap := (\<lambda>q. if registered s q then (heap s q)\<lparr>mServoMoves := False\<rparr> else heap s q)\<rparr>"
    unfolding stopAllServos_def registered_def
    by (rule fold_this_update) simp
  then show ?thesis
    by (simp add: stop_def Let_def disableServoEasingInterrupt_def)
qed

theorem stopAllServos_frame_witness:
  "\<not> isOneServoMoving
       (this_update 0 (\<lambda>sv. sv\<lparr>mServoMoves := False\<rparr>) interrupt_driven_move)
   \<and> \<not> sInterruptsAreActive (stop 0 interrupt_driven_move)
   \<and> sInterruptsAreActive (stopAllServos interrupt_driven_move)
   \<and> \<not> mServoMoves (heap (stopAllServos interrupt_driven_move) 0)"
proof -
  have h: "\<not> isOneServoMoving
       (this_update 0 (\<lambda>sv. sv\<lparr>mServoMoves := False\<rparr>) interrupt_driven_move)"
    "sInterruptsAreActive interrupt_driven_move"
    "registered interrupt_driven_move 0"
    by (simp_all add: isOneServoMoving_def registered_def slot_indices_def this_update_def
        interrupt_driven_move_def one_servo_def empty_store_def)
  show ?thesis
    using h stopAllServos_frame [of interrupt_driven_move 0]
    by simp
qed

subsection \<open>The staged next position\<close>




end
